theory Spec2Isabelle
  imports Main
begin

section \<open>Python values the bot works with\<close>

text \<open>
  The model follows \<^verbatim>\<open>src/app/bot.py\<close> (class \<^verbatim>\<open>GhosttyBot\<close>). Strings are
  \<^typ>\<open>string\<close>; \<^verbatim>\<open>str.startswith\<close>, \<^verbatim>\<open>str.removeprefix\<close> and
  \<^verbatim>\<open>sep.join\<close> are written out.
\<close>

definition startswith :: "string \<Rightarrow> string \<Rightarrow> bool" where
  "startswith s pre = (take (length pre) s = pre)"

definition removeprefix :: "string \<Rightarrow> string \<Rightarrow> string" where
  "removeprefix s pre = (if startswith s pre then drop (length pre) s else s)"

fun join :: "string \<Rightarrow> string list \<Rightarrow> string" where
  "join sep [] = []"
| "join sep [x] = x"
| "join sep (x # y # ys) = x @ sep @ join sep (y # ys)"

text \<open>
  Exceptions are values. The first five are the platform library's extension errors
  (all subclasses of \<^verbatim>\<open>commands.ExtensionError\<close>); \<^verbatim>\<open>ExtensionFailed\<close> wraps the
  exception a module's own code raised.
\<close>

datatype error =
    ExtensionNotFound string
  | ExtensionAlreadyLoaded string
  | ExtensionNotLoaded string
  | NoEntryPointError string
  | ExtensionFailed string error
  | ModuleNotFoundError string
  | RuntimeError string
  | TypeError string
  | AssertionError
  | IndexError
  | KeyError string
  | HTTPException
  | ExceptionGroup "error list"

fun is_ExtensionFailed :: "error \<Rightarrow> bool" where
  "is_ExtensionFailed (ExtensionFailed n e) = True"
| "is_ExtensionFailed e = False"

fun is_ExtensionError :: "error \<Rightarrow> bool" where
  "is_ExtensionError (ExtensionNotFound n) = True"
| "is_ExtensionError (ExtensionAlreadyLoaded n) = True"
| "is_ExtensionError (ExtensionNotLoaded n) = True"
| "is_ExtensionError (NoEntryPointError n) = True"
| "is_ExtensionError (ExtensionFailed n e) = True"
| "is_ExtensionError e = False"

subsection \<open>The log sink\<close>

text \<open>
  \<^verbatim>\<open>loguru\<close>'s logger is a sink that records each call: level, message template,
  positional arguments and the attached exception
  (\<^verbatim>\<open>logger.opt(exception=error).exception(...)\<close> logs at \<^verbatim>\<open>ERROR\<close> with the exception).
  The log is the sequence of the calls, whether or not a handler writes them out.
  A level has the number \<^verbatim>\<open>loguru\<close> gives it.
\<close>

datatype level = TRACE | DEBUG | INFO | WARNING | ERROR

fun level_no :: "level \<Rightarrow> nat" where
  "level_no TRACE = 5"
| "level_no DEBUG = 10"
| "level_no INFO = 20"
| "level_no WARNING = 30"
| "level_no ERROR = 40"

datatype log_arg = AStr string | AInt int

datatype log_record =
  LogRecord (lvl: level) (message: string) (args: "log_arg list") (exc: "error option")

text \<open>
  When a call has arguments and a handler accepts its level, \<^verbatim>\<open>loguru\<close> builds the
  message with \<^verbatim>\<open>message.format(*args, **kwargs)\<close>, and what \<^verbatim>\<open>str.format\<close> raises,
  the call raises. \<open>format_fields\<close> lists the replacement fields of a template
  (\<^verbatim>\<open>{{\<close> is an escaped brace); \<open>arg_name\<close> is the part of a field that names the
  argument. \<^verbatim>\<open>bot.py\<close> passes positional arguments only, so a field \<^verbatim>\<open>{}\<close> takes the
  next one, a field with a number takes that one (\<^verbatim>\<open>IndexError\<close> when there is none),
  and a field with any other name is looked up among the keyword arguments and raises
  \<^verbatim>\<open>KeyError\<close> with that name. A template with a single brace, which
  \<^verbatim>\<open>str.format\<close> rejects, does not occur in \<^verbatim>\<open>bot.py\<close>.
\<close>

fun format_fields :: "bool \<Rightarrow> string \<Rightarrow> string \<Rightarrow> string list" where
  "format_fields inside field [] = []"
| "format_fields inside field (c # cs) =
     (if inside then
        (if c = CHR ''}'' then field # format_fields False [] cs
         else if c = CHR ''{'' \<and> field = [] then format_fields False [] cs
         else format_fields True (field @ [c]) cs)
      else if c = CHR ''{'' then format_fields True [] cs
      else format_fields False [] cs)"

definition arg_name :: "string \<Rightarrow> string" where
  "arg_name field = takeWhile (\<lambda>c. c \<notin> set ''!:.['') field"

definition is_index :: "string \<Rightarrow> bool" where
  "is_index name = (name \<noteq> [] \<and> list_all (\<lambda>c. c \<in> set ''0123456789'') name)"

definition index_of :: "string \<Rightarrow> nat" where
  "index_of name = foldl (\<lambda>k c. 10 * k + (of_char c - 48)) 0 name"

fun check_fields :: "nat \<Rightarrow> nat \<Rightarrow> string list \<Rightarrow> error option" where
  "check_fields auto n [] = None"
| "check_fields auto n (name # names) =
     (if name = [] then
        (if auto < n then check_fields (Suc auto) n names else Some IndexError)
      else if is_index name then
        (if index_of name < n then check_fields auto n names else Some IndexError)
      else Some (KeyError name))"

definition format_error :: "string \<Rightarrow> log_arg list \<Rightarrow> error option" where
  "format_error template as =
     check_fields 0 (length as) (map arg_name (format_fields False [] template))"

subsection \<open>Platform objects and the gateway's live cache\<close>

text \<open>
  A platform object is modelled by the value it has when it is read. The gateway is the
  platform library's client cache at the time of a call: the bot only queries it
  (\<^verbatim>\<open>get_guild\<close>, \<^verbatim>\<open>get_channel\<close>, \<^verbatim>\<open>guilds\<close>), and a send to a channel either
  is delivered or raises what \<open>send_error\<close> holds.
\<close>

datatype channel_kind =
  TextChannel | VoiceChannel | CategoryChannel | StageChannel | ForumChannel | Thread | DMChannel

record channel =
  c_id :: int
  c_kind :: channel_kind

record emoji =
  e_id :: int
  e_name :: string

record guild =
  g_id :: int
  g_name :: string
  g_channels :: "channel list"
  g_emojis :: "emoji list"

record account =
  a_id :: int
  a_str :: string
  a_bot :: bool

record message =
  m_author :: account
  m_type :: nat
  m_guild :: "guild option"
  m_content :: string

record gateway =
  guilds :: "guild list"
  channels :: "channel list"
  send_error :: "error option"

definition get_guild :: "gateway \<Rightarrow> int \<Rightarrow> guild option" where
  "get_guild gw i = find (\<lambda>g. g_id g = i) (guilds gw)"

definition get_channel :: "gateway \<Rightarrow> int \<Rightarrow> channel option" where
  "get_channel gw i = find (\<lambda>c. c_id c = i) (channels gw)"

definition guild_get_channel :: "guild \<Rightarrow> int \<Rightarrow> channel option" where
  "guild_get_channel g i = find (\<lambda>c. c_id c = i) (g_channels g)"

definition isinstance :: "channel option \<Rightarrow> channel_kind \<Rightarrow> bool" where
  "isinstance ch k = (case ch of None \<Rightarrow> False | Some c \<Rightarrow> c_kind c = k)"

subsection \<open>Configuration\<close>

text \<open>
  \<^verbatim>\<open>app.config.Config\<close> is read-only to the bot. \<^verbatim>\<open>webhook_channel_ids\<close> is a dict,
  kept as an association list in the order \<^verbatim>\<open>.items()\<close> yields it; a feed type is the
  string that \<^verbatim>\<open>str.format\<close> puts into a message.
\<close>

record config =
  guild_id :: "int option"
  log_channel_id :: int
  help_channel_id :: int
  webhook_channel_ids :: "(string \<times> int) list"

subsection \<open>The module tree\<close>

text \<open>
  What the runtime's module system answers for a module name: \<^verbatim>\<open>importlib.util.find_spec\<close>
  raises, returns \<^verbatim>\<open>None\<close>, or finds the module; executing a found module's body raises
  or defines the module, whose \<^verbatim>\<open>setup\<close> attribute is absent, not callable, or a
  callable that returns (\<open>None\<close>) or raises (\<open>Some e\<close>) when the library awaits it.
\<close>

datatype setup_attr = NoSetup | SetupNotCallable | SetupCallable "error option"

datatype module_body = Raises error | Defines setup_attr

datatype spec_lookup = SpecRaises error | SpecNone | SpecFound module_body

type_synonym module_tree = "string \<Rightarrow> spec_lookup"

section \<open>The bot and the process it runs in\<close>

text \<open>
  One record holds the \<^verbatim>\<open>GhosttyBot\<close> instance and what the process around it
  accumulates: the active extension set (\<^verbatim>\<open>self.extensions\<close>), \<^verbatim>\<open>sys.modules\<close>, the
  cogs, the emoji dict \<^verbatim>\<open>self._ghostty_emojis\<close>, the instance slots the four cached
  properties write, the log, the tracing spans and the effects sent to the platform.
  \<open>executed\<close> is the trace of the module bodies that \<^verbatim>\<open>importlib\<close> has run for the
  discovery, in order; what the code of a module does to the process is not modelled
  beyond that entry, and a body that raises has its entry too (it ran in part).
  \<open>handler_level\<close> is the lowest level a handler of the logger accepts
  (\<^verbatim>\<open>loguru\<close>'s default handler accepts \<^verbatim>\<open>DEBUG\<close>).
\<close>

datatype py_value = EmojiObj emoji | StrObj string

datatype effect =
    Sent int string
  | TryDm account string
  | FilterCheck message
  | Dispatch string message

datatype cog = Cog (check: "message \<Rightarrow> bool")

record bot =
  config :: config
  extensions :: "string set"
  sys_modules :: "string set"
  executed :: "string list"
  cogs :: "string \<rightharpoonup> cog"
  priv_ghostty_emojis :: "string \<rightharpoonup> py_value"
  cached_ghostty_guild :: "guild option"
  cached_log_channel :: "channel option"
  cached_help_channel :: "channel option"
  cached_webhook_channels :: "(string \<rightharpoonup> channel) option"
  git_data_loaded :: bool
  handler_level :: level
  logs :: "log_record list"
  spans :: "(string \<times> string) list"
  effects :: "effect list"

text \<open>
  \<open>logger\<close> is a call that returns. \<open>logger_formatted\<close> is a call with what formatting
  the message can raise; it is \<open>logger\<close> when the message formats, which is so for
  every template of \<^verbatim>\<open>bot.py\<close> but the one in \<^verbatim>\<open>webhook_channels\<close>.
\<close>

definition logger :: "level \<Rightarrow> string \<Rightarrow> log_arg list \<Rightarrow> bot \<Rightarrow> bot" where
  "logger l m as b = b\<lparr>logs := logs b @ [LogRecord l m as None]\<rparr>"

definition accepts :: "bot \<Rightarrow> level \<Rightarrow> bool" where
  "accepts b l = (level_no (handler_level b) \<le> level_no l)"

definition logger_formatted ::
  "level \<Rightarrow> string \<Rightarrow> log_arg list \<Rightarrow> bot \<Rightarrow> (error + unit) \<times> bot" where
  "logger_formatted l m as b =
     (if accepts b l \<and> as \<noteq> [] then
        (case format_error m as of
           Some e \<Rightarrow> (Inl e, b)
         | None \<Rightarrow> (Inr (), logger l m as b))
      else (Inr (), logger l m as b))"

definition logger_exception :: "error \<Rightarrow> string \<Rightarrow> bot \<Rightarrow> bot" where
  "logger_exception e m b = b\<lparr>logs := logs b @ [LogRecord ERROR m [] (Some e)]\<rparr>"

definition start_span :: "string \<Rightarrow> string \<Rightarrow> bot \<Rightarrow> bot" where
  "start_span opn name b = b\<lparr>spans := spans b @ [(opn, name)]\<rparr>"

text \<open>
  Helpers of the repository that are not in \<^verbatim>\<open>bot.py\<close> and only render text are taken
  as parameters: \<^verbatim>\<open>app.utils.pretty_print_account\<close> and \<^verbatim>\<open>str\<close> of an exception.
  \<^verbatim>\<open>str\<close> of an account is its field \<open>a_str\<close>.
\<close>

record printers =
  pretty_print_account :: "account \<Rightarrow> string"
  str_error :: "error \<Rightarrow> string"

section \<open>Extension discovery\<close>

text \<open>
  Before it looks a dotted name up, the module system imports the packages the name lies
  in, outermost first: \<open>parent_packages\<close> of \<^verbatim>\<open>app.components.x\<close> are \<^verbatim>\<open>app\<close> and
  \<^verbatim>\<open>app.components\<close>. A package that is in \<^verbatim>\<open>sys.modules\<close> is not run again. The
  packages above a candidate are taken to import without an error of their own; a lookup
  that raises is the tree's \<open>SpecRaises\<close>, and what it had imported by then is not
  tracked.
\<close>

fun dotted_prefixes :: "string \<Rightarrow> string \<Rightarrow> string list" where
  "dotted_prefixes seen [] = []"
| "dotted_prefixes seen (c # cs) =
     (if c = CHR ''.'' then seen # dotted_prefixes (seen @ [c]) cs
      else dotted_prefixes (seen @ [c]) cs)"

definition parent_packages :: "string \<Rightarrow> string list" where
  "parent_packages name = dotted_prefixes [] name"

definition exec_module :: "string \<Rightarrow> bot \<Rightarrow> bot" where
  "exec_module name b = b\<lparr>executed := executed b @ [name]\<rparr>"

fun import_packages :: "string list \<Rightarrow> bot \<Rightarrow> bot" where
  "import_packages [] b = b"
| "import_packages (p # ps) b =
     import_packages ps
       (if p \<in> sys_modules b then b
        else (exec_module p b)\<lparr>sys_modules := insert p (sys_modules b)\<rparr>)"

text \<open>
  \<^verbatim>\<open>importlib.util.find_spec\<close> imports the parent packages of the name and then asks
  the finders: the process changes also when the answer is \<^verbatim>\<open>None\<close>.
\<close>

definition find_spec :: "module_tree \<Rightarrow> string \<Rightarrow> bot \<Rightarrow> (error + bool) \<times> bot" where
  "find_spec tree name b =
     (case tree name of
        SpecRaises e \<Rightarrow> (Inl e, b)
      | SpecNone \<Rightarrow> (Inr False, import_packages (parent_packages name) b)
      | SpecFound m \<Rightarrow> (Inr True, import_packages (parent_packages name) b))"

text \<open>
  \<^verbatim>\<open>importlib.import_module\<close> imports the parent packages, executes the module's body
  and enters the module in \<^verbatim>\<open>sys.modules\<close>. A body that raises has run up to the
  \<^verbatim>\<open>raise\<close> and leaves no entry; a module that has its entry is returned as it is.
\<close>

definition import_module :: "module_tree \<Rightarrow> string \<Rightarrow> bot \<Rightarrow> (error + setup_attr) \<times> bot" where
  "import_module tree name b =
     (let b1 = import_packages (parent_packages name) b
      in case tree name of
           SpecRaises e \<Rightarrow> (Inl e, b)
         | SpecNone \<Rightarrow> (Inl (ModuleNotFoundError name), b1)
         | SpecFound (Raises e) \<Rightarrow> (Inl e, exec_module name b1)
         | SpecFound (Defines a) \<Rightarrow>
             (Inr a,
              if name \<in> sys_modules b1 then b1
              else (exec_module name b1)\<lparr>sys_modules := insert name (sys_modules b1)\<rparr>))"

fun callable :: "setup_attr \<Rightarrow> bool" where
  "callable (SetupCallable r) = True"
| "callable a = False"

text \<open>
  \<^verbatim>\<open>is_valid_extension\<close>: the three conjuncts of the source, evaluated left to right
  with Python's short-circuit \<^verbatim>\<open>and\<close>; nothing in it catches an exception.
\<close>

definition is_valid_extension :: "module_tree \<Rightarrow> string \<Rightarrow> bot \<Rightarrow> (error + bool) \<times> bot" where
  "is_valid_extension tree extension b =
     (if \<not> startswith extension ''app.components.'' then (Inr False, b)
      else case find_spec tree extension b of
             (Inl e, b1) \<Rightarrow> (Inl e, b1)
           | (Inr False, b1) \<Rightarrow> (Inr False, b1)
           | (Inr True, b1) \<Rightarrow>
               (case import_module tree extension b1 of
                  (Inl e, b2) \<Rightarrow> (Inl e, b2)
                | (Inr a, b2) \<Rightarrow> (Inr (callable a), b2)))"

text \<open>
  \<^verbatim>\<open>get_component_extension_names\<close>: \<open>walked\<close> is the sequence of \<^verbatim>\<open>module_info.name\<close>
  that \<^verbatim>\<open>pkgutil.walk_packages\<close> yields for the components directory (the packages it
  imports in order to descend into them are not tracked). The set \<^verbatim>\<open>modules\<close> is kept
  as a list without repetition.
\<close>

fun collect_extensions ::
  "module_tree \<Rightarrow> string list \<Rightarrow> string list \<Rightarrow> bot \<Rightarrow> (error + string list) \<times> bot" where
  "collect_extensions tree [] modules b = (Inr modules, b)"
| "collect_extensions tree (name # rest) modules b =
     (case is_valid_extension tree name b of
        (Inl e, b') \<Rightarrow> (Inl e, b')
      | (Inr True, b') \<Rightarrow>
          collect_extensions tree rest (if name \<in> set modules then modules else modules @ [name]) b'
      | (Inr False, b') \<Rightarrow> collect_extensions tree rest modules b')"

definition get_component_extension_names ::
  "module_tree \<Rightarrow> string list \<Rightarrow> bot \<Rightarrow> (error + string list) \<times> bot" where
  "get_component_extension_names tree walked b = collect_extensions tree walked [] b"

section \<open>The extension loader\<close>

text \<open>
  Modelled from the spec: the module system of the platform library
  (\<^verbatim>\<open>commands.Bot.load_extension\<close> and \<^verbatim>\<open>unload_extension\<close>), which \<^verbatim>\<open>bot.py\<close> calls
  through \<^verbatim>\<open>super()\<close> and which is not part of the repository. A load fails with a
  module-system error when the name is already active, cannot be found or has no entry
  point, and with \<^verbatim>\<open>ExtensionFailed\<close> when the module's body or its \<^verbatim>\<open>setup\<close> raises;
  it rolls back, so the active set changes only on success. An unload fails with
  \<^verbatim>\<open>ExtensionNotLoaded\<close> when the name is not active. An exception of the spec lookup
  itself is not wrapped.
\<close>

definition super_load_extension :: "module_tree \<Rightarrow> string \<Rightarrow> bot \<Rightarrow> (error + unit) \<times> bot" where
  "super_load_extension tree name b =
     (if name \<in> extensions b then (Inl (ExtensionAlreadyLoaded name), b)
      else case tree name of
             SpecRaises e \<Rightarrow> (Inl e, b)
           | SpecNone \<Rightarrow> (Inl (ExtensionNotFound name), b)
           | SpecFound (Raises e) \<Rightarrow> (Inl (ExtensionFailed name e), b)
           | SpecFound (Defines NoSetup) \<Rightarrow> (Inl (NoEntryPointError name), b)
           | SpecFound (Defines SetupNotCallable) \<Rightarrow>
               (Inl (ExtensionFailed name (TypeError ''object is not callable'')), b)
           | SpecFound (Defines (SetupCallable (Some e))) \<Rightarrow> (Inl (ExtensionFailed name e), b)
           | SpecFound (Defines (SetupCallable None)) \<Rightarrow>
               (Inr (), b\<lparr>extensions := insert name (extensions b),
                          sys_modules := insert name (sys_modules b)\<rparr>))"

definition unload_extension :: "string \<Rightarrow> bot \<Rightarrow> (error + unit) \<times> bot" where
  "unload_extension name b =
     (if name \<notin> extensions b then (Inl (ExtensionNotLoaded name), b)
      else (Inr (), b\<lparr>extensions := extensions b - {name},
                      sys_modules := sys_modules b - {name}\<rparr>))"

text \<open>
  \<^verbatim>\<open>load_extension\<close> (the override): a debug line, a tracing span, then the library's
  load. It has no \<^verbatim>\<open>try\<close>: what the library raises, it raises. \<open>load_extension_begin\<close>
  is the part before the \<^verbatim>\<open>await\<close>.
\<close>

definition load_extension_begin :: "string \<Rightarrow> bot \<Rightarrow> bot" where
  "load_extension_begin name b =
     (let short_name = removeprefix name ''app.components.''
      in start_span ''bot.load_extension'' short_name
           (logger DEBUG ''loading extension {}'' [AStr short_name] b))"

definition load_extension :: "module_tree \<Rightarrow> string \<Rightarrow> bot \<Rightarrow> (error + unit) \<times> bot" where
  "load_extension tree name b = super_load_extension tree name (load_extension_begin name b)"

datatype operation = Load | Unload

fun operation_str :: "operation \<Rightarrow> string" where
  "operation_str Load = ''load''"
| "operation_str Unload = ''unload''"

text \<open>
  \<^verbatim>\<open>_try_extension\<close>: the two \<^verbatim>\<open>except\<close> clauses in the source's order
  (\<^verbatim>\<open>ExtensionFailed\<close> first, then any other \<^verbatim>\<open>ExtensionError\<close>); any other exception
  is not caught.
\<close>

definition try_extension ::
  "printers \<Rightarrow> module_tree \<Rightarrow> operation \<Rightarrow> string \<Rightarrow> account option \<Rightarrow> bot \<Rightarrow> (error + bool) \<times> bot" where
  "try_extension pr tree operation name user b =
     (let extension_operation =
            (if operation = Load then load_extension tree else unload_extension)
      in case extension_operation name b of
           (Inr u, b') \<Rightarrow> (Inr True, b')
         | (Inl e, b') \<Rightarrow>
             if is_ExtensionFailed e then
               (Inr False,
                logger_exception e
                  ((case user of Some u \<Rightarrow> pretty_print_account pr u @ '' '' | None \<Rightarrow> [])
                   @ ''failed to '' @ operation_str operation @ '' `'' @ name @ ''`'') b')
             else if is_ExtensionError e then
               (Inr False,
                logger WARNING
                  ((case user of Some u \<Rightarrow> a_str u @ '' '' | None \<Rightarrow> [])
                   @ ''failed to '' @ operation_str operation @ '' `'' @ name @ ''`: ''
                   @ str_error pr e) [] b')
             else (Inl e, b'))"

definition try_load_extension ::
  "printers \<Rightarrow> module_tree \<Rightarrow> string \<Rightarrow> account option \<Rightarrow> bot \<Rightarrow> (error + bool) \<times> bot" where
  "try_load_extension pr tree name user b = try_extension pr tree Load name user b"

definition try_unload_extension ::
  "printers \<Rightarrow> module_tree \<Rightarrow> string \<Rightarrow> account option \<Rightarrow> bot \<Rightarrow> (error + bool) \<times> bot" where
  "try_unload_extension pr tree name user b = try_extension pr tree Unload name user b"

section \<open>Bootstrap\<close>

text \<open>
  Modelled from the spec: \<^verbatim>\<open>BotStatus.load_git_data\<close> (\<^verbatim>\<open>app.status\<close>, not in
  \<^verbatim>\<open>bot.py\<close>), the status initialization that is awaited before any module loads.
\<close>

definition load_git_data :: "bot \<Rightarrow> bot" where
  "load_git_data b = b\<lparr>git_data_loaded := True\<rparr>"

text \<open>
  \<^verbatim>\<open>asyncio.TaskGroup\<close> (Python's standard library) with one task per discovered
  extension, each running \<^verbatim>\<open>self.load_extension(extension)\<close>. The tasks are listed in
  the order in which they finish; the scheduler fixes no such order, so it is a parameter
  (\<open>arrange\<close> puts the discovered names in the order \<open>order\<close> gives, names it does not
  mention last). A task's exception is collected by the group, and from the first
  collected exception on the group cancels every task that has not finished; \<open>survives\<close>
  tells which of the later tasks finish all the same (they were past their last
  suspension point). A cancelled task has run the part of \<^verbatim>\<open>load_extension\<close> before
  its \<^verbatim>\<open>await\<close>; it never enters the active set, and what the library's load had done
  to the module table by then is not tracked. On exit the group raises the collected
  exceptions as one \<^verbatim>\<open>ExceptionGroup\<close>. The discovery is the iterable of the
  \<^verbatim>\<open>for\<close> inside the \<^verbatim>\<open>async with\<close>, so an exception of the discovery leaves the
  body of the group, before any task is created, and the group raises it wrapped in an
  \<^verbatim>\<open>ExceptionGroup\<close> as well.
\<close>

definition arrange :: "string list \<Rightarrow> string list \<Rightarrow> string list" where
  "arrange order names =
     remdups (filter (\<lambda>n. n \<in> set names) order)
     @ filter (\<lambda>n. n \<notin> set order) (remdups names)"

fun task_group ::
  "module_tree \<Rightarrow> (string \<Rightarrow> bool) \<Rightarrow> string list \<Rightarrow> error list \<Rightarrow> bot \<Rightarrow> error list \<times> bot" where
  "task_group tree survives [] errs b = (errs, b)"
| "task_group tree survives (name # rest) errs b =
     (if errs \<noteq> [] \<and> \<not> survives name
      then task_group tree survives rest errs (load_extension_begin name b)
      else case load_extension tree name b of
             (Inl e, b') \<Rightarrow> task_group tree survives rest (errs @ [e]) b'
           | (Inr u, b') \<Rightarrow> task_group tree survives rest errs b')"

definition setup_hook ::
  "module_tree \<Rightarrow> string list \<Rightarrow> string list \<Rightarrow> (string \<Rightarrow> bool) \<Rightarrow> bot \<Rightarrow> (error + unit) \<times> bot" where
  "setup_hook tree walked order survives b =
     (let b1 = load_git_data (start_span ''bot.setup'' ''Initial load'' b)
      in case get_component_extension_names tree walked b1 of
           (Inl e, b2) \<Rightarrow> (Inl (ExceptionGroup [e]), b2)
         | (Inr names, b2) \<Rightarrow>
             (case task_group tree survives (arrange order names) [] b2 of
                (errs, b3) \<Rightarrow>
                  if errs = []
                  then (Inr (),
                        logger INFO ''loaded {} extensions'' [AInt (int (card (extensions b3)))] b3)
                  else (Inl (ExceptionGroup errs), b3)))"

section \<open>The resource cache\<close>

text \<open>
  \<^verbatim>\<open>discord.utils.cached_property\<close>: a non-data descriptor. The first access that
  returns stores the value in the instance under the property's name, and every later
  access reads that slot without calling the function. An access that raises stores
  nothing.
\<close>

definition cached_property ::
  "(bot \<Rightarrow> 'a option) \<Rightarrow> ('a \<Rightarrow> bot \<Rightarrow> bot) \<Rightarrow> (bot \<Rightarrow> (error + 'a) \<times> bot) \<Rightarrow> bot \<Rightarrow> (error + 'a) \<times> bot" where
  "cached_property slot store fget b =
     (case slot b of
        Some v \<Rightarrow> (Inr v, b)
      | None \<Rightarrow>
          (case fget b of
             (Inl e, b') \<Rightarrow> (Inl e, b')
           | (Inr v, b') \<Rightarrow> (Inr v, store v b')))"

text \<open>
  \<^verbatim>\<open>ghostty_guild\<close>. \<^verbatim>\<open>self.config.guild_id and ...\<close> is Python truthiness: \<^verbatim>\<open>None\<close>
  and \<^verbatim>\<open>0\<close> are false. \<^verbatim>\<open>self.guilds[0]\<close> raises \<^verbatim>\<open>IndexError\<close> on an empty list,
  while the arguments of the log call are evaluated.
\<close>

definition ghostty_guild_fget :: "gateway \<Rightarrow> bot \<Rightarrow> (error + guild) \<times> bot" where
  "ghostty_guild_fget gw b =
     (let b1 = logger DEBUG ''fetching ghostty guild'' [] b
      in case (case guild_id (config b1) of
                 None \<Rightarrow> None
               | Some i \<Rightarrow> if i = 0 then None else get_guild gw i) of
           Some guild \<Rightarrow> (Inr guild, logger TRACE ''found ghostty guild'' [] b1)
         | None \<Rightarrow>
             (case guilds gw of
                [] \<Rightarrow> (Inl IndexError, b1)
              | g0 # gs \<Rightarrow>
                  (Inr g0,
                   logger INFO
                     ''BOT_GUILD_ID unset or specified guild not found; using bot's first guild: {} (ID: {})''
                     [AStr (g_name g0), AInt (g_id g0)] b1)))"

definition ghostty_guild :: "gateway \<Rightarrow> bot \<Rightarrow> (error + guild) \<times> bot" where
  "ghostty_guild gw =
     cached_property cached_ghostty_guild (\<lambda>v b. b\<lparr>cached_ghostty_guild := Some v\<rparr>)
       (ghostty_guild_fget gw)"

definition log_channel_fget :: "gateway \<Rightarrow> bot \<Rightarrow> (error + channel) \<times> bot" where
  "log_channel_fget gw b =
     (let b1 = logger DEBUG ''fetching log channel'' [] b;
          channel = get_channel gw (log_channel_id (config b1))
      in case channel of
           None \<Rightarrow> (Inl AssertionError, b1)
         | Some c \<Rightarrow> if isinstance channel TextChannel then (Inr c, b1) else (Inl AssertionError, b1))"

definition log_channel :: "gateway \<Rightarrow> bot \<Rightarrow> (error + channel) \<times> bot" where
  "log_channel gw =
     cached_property cached_log_channel (\<lambda>v b. b\<lparr>cached_log_channel := Some v\<rparr>)
       (log_channel_fget gw)"

definition help_channel_fget :: "gateway \<Rightarrow> bot \<Rightarrow> (error + channel) \<times> bot" where
  "help_channel_fget gw b =
     (let b1 = logger DEBUG ''fetching help channel'' [] b;
          channel = get_channel gw (help_channel_id (config b1))
      in case channel of
           None \<Rightarrow> (Inl AssertionError, b1)
         | Some c \<Rightarrow> if isinstance channel ForumChannel then (Inr c, b1) else (Inl AssertionError, b1))"

definition help_channel :: "gateway \<Rightarrow> bot \<Rightarrow> (error + channel) \<times> bot" where
  "help_channel gw =
     cached_property cached_help_channel (\<lambda>v b. b\<lparr>cached_help_channel := Some v\<rparr>)
       (help_channel_fget gw)"

text \<open>
  \<^verbatim>\<open>webhook_channels\<close>: the loop over \<^verbatim>\<open>self.config.webhook_channel_ids.items()\<close>.
  \<^verbatim>\<open>msg.format(feed_type)\<close> is written out for both messages. The debug call at the
  head of the loop gives the template \<^verbatim>\<open>{feed_type}\<close>, a named field, one positional
  argument.
\<close>

fun webhook_channels_loop ::
  "gateway \<Rightarrow> (string \<times> int) list \<Rightarrow> (string \<rightharpoonup> channel) \<Rightarrow> bot \<Rightarrow> (error + (string \<rightharpoonup> channel)) \<times> bot" where
  "webhook_channels_loop gw [] chans b = (Inr chans, b)"
| "webhook_channels_loop gw ((feed_type, i) # rest) chans b =
     (case logger_formatted DEBUG ''fetching {feed_type} webhook channel'' [AStr feed_type] b of
        (Inl e, b1) \<Rightarrow> (Inl e, b1)
      | (Inr u, b1) \<Rightarrow>
          (case ghostty_guild gw b1 of
             (Inl e, b2) \<Rightarrow> (Inl e, b2)
           | (Inr g, b2) \<Rightarrow>
               (case guild_get_channel g i of
                  None \<Rightarrow>
                    (Inl (TypeError (''failed to find '' @ feed_type @ '' webhook channel'')), b2)
                | Some c \<Rightarrow>
                    if \<not> isinstance (Some c) TextChannel then
                      (Inl (TypeError
                         (''expected '' @ feed_type @ '' webhook channel to be a text channel'')), b2)
                    else webhook_channels_loop gw rest (chans(feed_type \<mapsto> c)) b2)))"

definition webhook_channels_fget :: "gateway \<Rightarrow> bot \<Rightarrow> (error + (string \<rightharpoonup> channel)) \<times> bot" where
  "webhook_channels_fget gw b =
     webhook_channels_loop gw (webhook_channel_ids (config b)) Map.empty b"

definition webhook_channels :: "gateway \<Rightarrow> bot \<Rightarrow> (error + (string \<rightharpoonup> channel)) \<times> bot" where
  "webhook_channels gw =
     cached_property cached_webhook_channels (\<lambda>v b. b\<lparr>cached_webhook_channels := Some v\<rparr>)
       (webhook_channels_fget gw)"

section \<open>The emoji cache\<close>

text \<open>
  \<^verbatim>\<open>EmojiName\<close>: the arguments of the \<^verbatim>\<open>Literal\<close>, in the source's order.
\<close>

definition EmojiName :: "string list" where
  "EmojiName =
     [''commit'', ''discussion'', ''discussion_answered'', ''discussion_duplicate'',
      ''discussion_outdated'', ''issue_closed_completed'', ''issue_closed_unplanned'',
      ''issue_open'', ''pull_closed'', ''pull_draft'', ''pull_merged'', ''pull_open'']"

text \<open>
  The placeholder is the one-character string U+2753, here as its three UTF-8 bytes.
\<close>

definition placeholder :: string where
  "placeholder = [CHR 0xE2, CHR 0x9D, CHR 0x93]"

text \<open>
  A send to a channel (\<^verbatim>\<open>channel.send(content)\<close> of the platform library).
\<close>

definition send :: "gateway \<Rightarrow> channel \<Rightarrow> string \<Rightarrow> bot \<Rightarrow> (error + unit) \<times> bot" where
  "send gw ch content b =
     (case send_error gw of
        Some e \<Rightarrow> (Inl e, b)
      | None \<Rightarrow> (Inr (), b\<lparr>effects := effects b @ [Sent (c_id ch) content]\<rparr>))"

text \<open>
  The \<^verbatim>\<open>for\<close> loop of \<^verbatim>\<open>load_emojis\<close> over the guild's emojis.
\<close>

fun store_emojis :: "string list \<Rightarrow> emoji list \<Rightarrow> (string \<rightharpoonup> py_value) \<Rightarrow> (string \<rightharpoonup> py_value)" where
  "store_emojis valid_emoji_names [] d = d"
| "store_emojis valid_emoji_names (e # es) d =
     store_emojis valid_emoji_names es
       (if e_name e \<in> set valid_emoji_names then d(e_name e \<mapsto> EmojiObj e) else d)"

text \<open>
  \<^verbatim>\<open>dict.fromkeys(missing_emojis, placeholder)\<close> merged into the dict by \<^verbatim>\<open>|=\<close>.
\<close>

fun fill_missing :: "string list \<Rightarrow> (string \<rightharpoonup> py_value) \<Rightarrow> (string \<rightharpoonup> py_value)" where
  "fill_missing [] d = d"
| "fill_missing (n # ns) d = fill_missing ns (d(n \<mapsto> StrObj placeholder))"

text \<open>
  \<^verbatim>\<open>load_emojis\<close>, with the set of expected labels as a parameter; the source's set is
  \<open>EmojiName\<close>. The frozenset \<^verbatim>\<open>missing_emojis\<close> is kept as a list without repetition.
  Python fixes no order for iterating a set of strings (it depends on the hash seed of the
  process), so the order is a parameter: \<open>arrange order\<close> puts the labels in the order
  \<open>order\<close> gives, labels it does not mention last. The log channel is read before the
  message is built, and the placeholders are stored after the send.
\<close>

definition load_emojis_for ::
  "string list \<Rightarrow> string list \<Rightarrow> gateway \<Rightarrow> bot \<Rightarrow> (error + unit) \<times> bot" where
  "load_emojis_for valid_emoji_names order gw b =
     (case ghostty_guild gw b of
        (Inl e, b1) \<Rightarrow> (Inl e, b1)
      | (Inr g, b1) \<Rightarrow>
          (let b2 = b1\<lparr>priv_ghostty_emojis :=
                        store_emojis valid_emoji_names (g_emojis g) (priv_ghostty_emojis b1)\<rparr>;
               missing_emojis =
                 arrange order
                   (filter (\<lambda>n. priv_ghostty_emojis b2 n = None) (remdups valid_emoji_names))
           in if missing_emojis = [] then (Inr (), b2)
              else case log_channel gw b2 of
                     (Inl e, b3) \<Rightarrow> (Inl e, b3)
                   | (Inr ch, b3) \<Rightarrow>
                       (case send gw ch
                               (''Failed to load the following emojis: ''
                                @ join '', '' missing_emojis) b3 of
                          (Inl e, b4) \<Rightarrow> (Inl e, b4)
                        | (Inr u, b4) \<Rightarrow>
                            (Inr (),
                             b4\<lparr>priv_ghostty_emojis :=
                                  fill_missing missing_emojis (priv_ghostty_emojis b4)\<rparr>))))"

definition load_emojis :: "string list \<Rightarrow> gateway \<Rightarrow> bot \<Rightarrow> (error + unit) \<times> bot" where
  "load_emojis order gw b = load_emojis_for EmojiName order gw b"

text \<open>
  \<^verbatim>\<open>self.ghostty_emojis\<close> is a \<^verbatim>\<open>MappingProxyType\<close> over the dict: a read-only view
  that always shows the dict's current content.
\<close>

definition ghostty_emojis :: "bot \<Rightarrow> (string \<rightharpoonup> py_value)" where
  "ghostty_emojis b = priv_ghostty_emojis b"

section \<open>The message gate\<close>

text \<open>
  \<^verbatim>\<open>_fails_message_filters\<close>: the cog is looked up by name; \<^verbatim>\<open>message_filter and
  message_filter.check(message)\<close> calls \<^verbatim>\<open>check\<close> only when the cog is there. A call
  of \<^verbatim>\<open>check\<close> is recorded as the effect \<open>FilterCheck\<close>.
\<close>

definition fails_message_filters :: "message \<Rightarrow> bot \<Rightarrow> bool \<times> bot" where
  "fails_message_filters msg b =
     (case cogs b ''MessageFilter'' of
        None \<Rightarrow> (False, b)
      | Some message_filter \<Rightarrow>
          (check message_filter msg, b\<lparr>effects := effects b @ [FilterCheck msg]\<rparr>))"

text \<open>
  \<^verbatim>\<open>try_dm\<close> (\<^verbatim>\<open>app.utils\<close>) and \<^verbatim>\<open>self.dispatch\<close> (the platform library) are
  recorded as effects. \<open>regular\<close> is \<^verbatim>\<open>app.utils.REGULAR_MESSAGE_TYPES\<close>, a constant that
  is not in \<^verbatim>\<open>bot.py\<close>; a message type is the number of the platform's enum member.
\<close>

definition try_dm :: "account \<Rightarrow> string \<Rightarrow> bot \<Rightarrow> bot" where
  "try_dm acct content b = b\<lparr>effects := effects b @ [TryDm acct content]\<rparr>"

definition dispatch :: "string \<Rightarrow> message \<Rightarrow> bot \<Rightarrow> bot" where
  "dispatch event msg b = b\<lparr>effects := effects b @ [Dispatch event msg]\<rparr>"

definition on_message :: "printers \<Rightarrow> nat set \<Rightarrow> message \<Rightarrow> bot \<Rightarrow> bot" where
  "on_message pr regular msg b =
     (if a_bot (m_author msg) \<or> m_type msg \<notin> regular then b
      else if m_guild msg = None \<and> m_content msg = ''ping'' then
        try_dm (m_author msg) ''pong''
          (logger DEBUG ''ping sent by {}'' [AStr (pretty_print_account pr (m_author msg))] b)
      else case fails_message_filters msg b of
             (True, b1) \<Rightarrow> b1
           | (False, b1) \<Rightarrow> dispatch ''message_filter_passed'' msg b1)"

section \<open>Construction, and the predicates the statements use\<close>

text \<open>
  \<^verbatim>\<open>__init__\<close>: a bot with the given configuration, no active extension, no cog, an
  empty emoji dict and no cached property computed yet. The process has imported
  \<^verbatim>\<open>app.bot\<close> and what its \<^verbatim>\<open>import\<close> lines name in the package \<^verbatim>\<open>app\<close>, and
  its logger has \<^verbatim>\<open>loguru\<close>'s default handler.
\<close>

definition GhosttyBot :: "config \<Rightarrow> bot" where
  "GhosttyBot cfg =
     \<lparr>config = cfg, extensions = {},
      sys_modules = {''app'', ''app.bot'', ''app.errors'', ''app.status'', ''app.utils''},
      executed = [], cogs = Map.empty,
      priv_ghostty_emojis = Map.empty, cached_ghostty_guild = None,
      cached_log_channel = None, cached_help_channel = None,
      cached_webhook_channels = None, git_data_loaded = False, handler_level = DEBUG,
      logs = [], spans = [], effects = []\<rparr>"

text \<open>
  What probing a candidate raises, if anything: the exception of the spec lookup or of
  the module's body. Only a name under the namespace is probed.
\<close>

definition probe_error :: "module_tree \<Rightarrow> string \<Rightarrow> error option" where
  "probe_error tree n =
     (if \<not> startswith n ''app.components.'' then None
      else case tree n of
             SpecRaises e \<Rightarrow> Some e
           | SpecFound (Raises e) \<Rightarrow> Some e
           | SpecFound (Defines a) \<Rightarrow> None
           | SpecNone \<Rightarrow> None)"

text \<open>
  The three-part predicate of the spec: under the namespace, resolved by the module
  system, and exposing a callable \<^verbatim>\<open>setup\<close>.
\<close>

definition qualifies :: "module_tree \<Rightarrow> string \<Rightarrow> bool" where
  "qualifies tree n =
     (startswith n ''app.components.'' \<and>
      (case tree n of
         SpecFound (Defines (SetupCallable r)) \<Rightarrow> True
       | SpecFound (Defines NoSetup) \<Rightarrow> False
       | SpecFound (Defines SetupNotCallable) \<Rightarrow> False
       | SpecFound (Raises e) \<Rightarrow> False
       | SpecRaises e \<Rightarrow> False
       | SpecNone \<Rightarrow> False))"


text \<open>
  The expected labels that no emoji of the guild carries, each once.
\<close>

definition missing_labels :: "string list \<Rightarrow> emoji list \<Rightarrow> string list" where
  "missing_labels valid_emoji_names es =
     filter (\<lambda>n. n \<notin> set (map e_name es)) (remdups valid_emoji_names)"

subsection \<open>Example inputs\<close>

definition config_ex :: config where
  "config_ex = \<lparr>guild_id = None, log_channel_id = 10, help_channel_id = 11,
                webhook_channel_ids = []\<rparr>"

text \<open>
  A module tree with a well-formed module \<open>a\<close>, a module \<open>k\<close> whose \<^verbatim>\<open>setup\<close> raises, a
  module \<open>broken\<close> whose import fails on a missing dependency, and a module \<open>plain\<close>
  without \<^verbatim>\<open>setup\<close>.
\<close>

definition tree_ex :: module_tree where
  "tree_ex n =
     (if n = ''app.components.a'' then SpecFound (Defines (SetupCallable None))
      else if n = ''app.components.k''
        then SpecFound (Defines (SetupCallable (Some (RuntimeError ''boom''))))
      else if n = ''app.components.broken''
        then SpecFound (Raises (ModuleNotFoundError ''githubkit''))
      else if n = ''app.components.plain'' then SpecFound (Defines NoSetup)
      else SpecNone)"

definition printers_ex :: printers where
  "printers_ex = \<lparr>pretty_print_account = a_str, str_error = (\<lambda>e. ''error'')\<rparr>"

definition walked_ok :: "string list" where
  "walked_ok = [''app.components.a'', ''app.components.plain'', ''app.components.k'']"

definition walked_broken :: "string list" where
  "walked_broken = [''app.components.a'', ''app.components.broken'', ''app.components.k'']"

definition walked_a :: "string list" where
  "walked_a = [''app.components.a'', ''app.components.plain'']"

text \<open>
  Two schedules: every task finishes although the group has aborted, and no task that is
  still running at the abort finishes.
\<close>

definition all_survive :: "string \<Rightarrow> bool" where
  "all_survive n = True"

definition none_survive :: "string \<Rightarrow> bool" where
  "none_survive n = False"

definition bot_ex :: bot where
  "bot_ex = GhosttyBot config_ex"

definition bot_a :: bot where
  "bot_a = (GhosttyBot config_ex)\<lparr>extensions := {''app.components.a''}\<rparr>"

text \<open>
  A bot in a process whose logger has been set to accept \<^verbatim>\<open>INFO\<close> and above.
\<close>

definition bot_quiet :: "config \<Rightarrow> bot" where
  "bot_quiet cfg = (GhosttyBot cfg)\<lparr>handler_level := INFO\<rparr>"

text \<open>
  A gateway with two guilds: the bot's first guild \<open>guild_other\<close>, and \<open>guild_ex\<close> with
  a text channel for the log, a forum channel for help, a text channel and a voice channel,
  and two emojis of which one carries an expected label.
\<close>

definition ch_log :: channel where
  "ch_log = \<lparr>c_id = 10, c_kind = TextChannel\<rparr>"

definition ch_help :: channel where
  "ch_help = \<lparr>c_id = 11, c_kind = ForumChannel\<rparr>"

definition ch_feed :: channel where
  "ch_feed = \<lparr>c_id = 20, c_kind = TextChannel\<rparr>"

definition ch_voice :: channel where
  "ch_voice = \<lparr>c_id = 21, c_kind = VoiceChannel\<rparr>"

definition emoji_commit :: emoji where
  "emoji_commit = \<lparr>e_id = 100, e_name = ''commit''\<rparr>"

definition emoji_party :: emoji where
  "emoji_party = \<lparr>e_id = 101, e_name = ''party''\<rparr>"

definition guild_ex :: guild where
  "guild_ex = \<lparr>g_id = 1, g_name = ''ghostty'',
               g_channels = [ch_log, ch_help, ch_feed, ch_voice],
               g_emojis = [emoji_commit, emoji_party]\<rparr>"

definition guild_other :: guild where
  "guild_other = \<lparr>g_id = 2, g_name = ''other'', g_channels = [], g_emojis = []\<rparr>"

definition gateway_ex :: gateway where
  "gateway_ex = \<lparr>guilds = [guild_other, guild_ex],
                 channels = [ch_log, ch_help, ch_feed, ch_voice], send_error = None\<rparr>"

text \<open>
  The platform state after everything has gone from the client's cache.
\<close>

definition gateway_gone :: gateway where
  "gateway_gone = \<lparr>guilds = [], channels = [], send_error = None\<rparr>"

definition config_set :: config where
  "config_set = \<lparr>guild_id = Some 1, log_channel_id = 10, help_channel_id = 11,
                 webhook_channel_ids = [(''main'', 20)]\<rparr>"

definition config_voice :: config where
  "config_voice = \<lparr>guild_id = Some 1, log_channel_id = 21, help_channel_id = 11,
                   webhook_channel_ids = [(''main'', 20), (''discussions'', 21)]\<rparr>"

text \<open>
  Messages: a direct message \<open>ping\<close> from a user, a guild message from the same user, and
  a direct message \<open>ping\<close> from a bot account. The regular message types are taken to be
  the platform's \<open>default\<close> (0) and \<open>reply\<close> (19). One filter cog rejects every message,
  the other none.
\<close>

definition user_ex :: account where
  "user_ex = \<lparr>a_id = 7, a_str = ''alice'', a_bot = False\<rparr>"

definition robot_ex :: account where
  "robot_ex = \<lparr>a_id = 8, a_str = ''robot'', a_bot = True\<rparr>"

definition msg_ping :: message where
  "msg_ping = \<lparr>m_author = user_ex, m_type = 0, m_guild = None, m_content = ''ping''\<rparr>"

definition msg_guild :: message where
  "msg_guild = \<lparr>m_author = user_ex, m_type = 0, m_guild = Some guild_other,
                m_content = ''hello''\<rparr>"

definition msg_robot :: message where
  "msg_robot = \<lparr>m_author = robot_ex, m_type = 0, m_guild = None, m_content = ''ping''\<rparr>"

definition regular_ex :: "nat set" where
  "regular_ex = {0, 19}"

definition accept_all :: "message \<Rightarrow> bool" where
  "accept_all msg = False"

definition bot_filtering :: bot where
  "bot_filtering = (GhosttyBot config_ex)\<lparr>cogs := [''MessageFilter'' \<mapsto> Cog accept_all]\<rparr>"

text \<open>
  A set of three expected labels.
\<close>

definition labels_ex :: "string list" where
  "labels_ex = [''commit'', ''pull_open'', ''issue_open'']"

section \<open>Discovery: what the validity check returns and what it changes\<close>

lemma exec_module_simps [simp]:
  "extensions (exec_module n b) = extensions b"
  "logs (exec_module n b) = logs b"
  "sys_modules (exec_module n b) = sys_modules b"
  "executed (exec_module n b) = executed b @ [n]"
  by (simp_all add: exec_module_def)

lemma import_packages_extensions [simp]:
  "extensions (import_packages ps b) = extensions b"
  by (induction ps arbitrary: b) simp_all

lemma import_packages_logs [simp]:
  "logs (import_packages ps b) = logs b"
  by (induction ps arbitrary: b) simp_all

lemma import_packages_sys_modules [simp]:
  "sys_modules (import_packages ps b) = sys_modules b \<union> set ps"
  by (induction ps arbitrary: b) auto




lemma is_valid_extension_result:
  "fst (is_valid_extension tree n b) =
     (case probe_error tree n of Some e \<Rightarrow> Inl e | None \<Rightarrow> Inr (qualifies tree n))"
  by (auto simp: is_valid_extension_def probe_error_def qualifies_def find_spec_def import_module_def
      Let_def split: spec_lookup.splits module_body.splits setup_attr.splits)

lemma is_valid_extension_state:
  "snd (is_valid_extension tree n b) =
     (if \<not> startswith n ''app.components.'' then b
      else case tree n of
             SpecRaises e \<Rightarrow> b
           | SpecNone \<Rightarrow> import_packages (parent_packages n) b
           | SpecFound (Raises e) \<Rightarrow>
               exec_module n (import_packages (parent_packages n) (import_packages (parent_packages n) b))
           | SpecFound (Defines a) \<Rightarrow>
               (let b1 = import_packages (parent_packages n) (import_packages (parent_packages n) b)
                in if n \<in> sys_modules b1 then b1
                   else (exec_module n b1)\<lparr>sys_modules := insert n (sys_modules b1)\<rparr>))"
  by (auto simp: is_valid_extension_def find_spec_def import_module_def Let_def
      split: spec_lookup.splits module_body.splits setup_attr.splits)

lemma is_valid_extension_frame:
  "extensions (snd (is_valid_extension tree n b)) = extensions b"
  "logs (snd (is_valid_extension tree n b)) = logs b"
  by (auto simp: is_valid_extension_state Let_def
      split: spec_lookup.splits module_body.splits)





lemma collect_extensions_step:
  "probe_error tree w = None \<Longrightarrow>
   collect_extensions tree (w # ws) ms b =
     collect_extensions tree ws
       (if qualifies tree w then (if w \<in> set ms then ms else ms @ [w]) else ms)
       (snd (is_valid_extension tree w b))"
  using is_valid_extension_result [of tree w b]
  by (cases "is_valid_extension tree w b") (simp split: bool.splits)

lemma collect_extensions_step_raises:
  "probe_error tree w = Some e \<Longrightarrow>
   collect_extensions tree (w # ws) ms b = (Inl e, snd (is_valid_extension tree w b))"
  using is_valid_extension_result [of tree w b]
  by (cases "is_valid_extension tree w b") simp

lemma collect_extensions_returns:
  "\<forall>n\<in>set ws. probe_error tree n = None \<Longrightarrow>
   \<exists>names. fst (collect_extensions tree ws ms b) = Inr names
      \<and> set names = set ms \<union> {n \<in> set ws. qualifies tree n}
      \<and> (distinct ms \<longrightarrow> distinct names)"
proof (induction ws arbitrary: ms b)
  case Nil
  then show ?case by simp
next
  case (Cons w ws)
  have none: "probe_error tree w = None" and rest: "\<forall>n\<in>set ws. probe_error tree n = None"
    using Cons.prems by simp_all
  let ?ms' = "if qualifies tree w then (if w \<in> set ms then ms else ms @ [w]) else ms"
  let ?b' = "snd (is_valid_extension tree w b)"
  have s: "set ?ms' = set ms \<union> {n \<in> {w}. qualifies tree n}" and d: "distinct ms \<longrightarrow> distinct ?ms'"
    by auto
  from Cons.IH [OF rest, where ms="?ms'" and b="?b'"]
  obtain names where n:
    "fst (collect_extensions tree ws ?ms' ?b') = Inr names"
    "set names = set ?ms' \<union> {n \<in> set ws. qualifies tree n}"
    "distinct ?ms' \<longrightarrow> distinct names"
    by blast
  have "set names = set ms \<union> {n \<in> set (w # ws). qualifies tree n}"
    unfolding n(2) s by auto
  moreover have "distinct ms \<longrightarrow> distinct names"
    using n(3) d by blast
  ultimately show ?case using n(1) by (simp only: collect_extensions_step [OF none]) blast
qed

lemma collect_extensions_raises:
  "n \<in> set ws \<Longrightarrow> probe_error tree n \<noteq> None \<Longrightarrow>
   \<exists>m\<in>set ws. \<exists>e. probe_error tree m = Some e \<and> fst (collect_extensions tree ws ms b) = Inl e"
proof (induction ws arbitrary: ms b)
  case Nil
  then show ?case by simp
next
  case (Cons w ws)
  show ?case
  proof (cases "probe_error tree w")
    case (Some e)
    have "fst (collect_extensions tree (w # ws) ms b) = Inl e"
      by (simp only: collect_extensions_step_raises [OF Some] fst_conv)
    with Some show ?thesis by auto
  next
    case None
    with Cons.prems have "n \<in> set ws" by auto
    from Cons.IH [OF this Cons.prems(2)]
    show ?thesis by (simp only: collect_extensions_step [OF None]) auto
  qed
qed

lemma collect_extensions_frame:
  "extensions (snd (collect_extensions tree ws ms b)) = extensions b
   \<and> logs (snd (collect_extensions tree ws ms b)) = logs b"
proof (induction ws arbitrary: ms b)
  case Nil
  then show ?case by simp
next
  case (Cons w ws)
  show ?case
  proof (cases "probe_error tree w")
    case (Some e)
    show ?thesis
      by (simp only: collect_extensions_step_raises [OF Some] snd_conv is_valid_extension_frame)
  next
    case None
    show ?thesis
      by (simp only: collect_extensions_step [OF None] Cons.IH is_valid_extension_frame)
  qed
qed



lemma tree_ex_probe:
  "probe_error tree_ex ''app.components.a'' = None"
  "probe_error tree_ex ''app.components.plain'' = None"
  "probe_error tree_ex ''app.components.k'' = None"
  "probe_error tree_ex ''app.components.broken'' = Some (ModuleNotFoundError ''githubkit'')"
  by (simp_all add: probe_error_def tree_ex_def startswith_def)

lemma tree_ex_qualifies:
  "qualifies tree_ex ''app.components.a''"
  "\<not> qualifies tree_ex ''app.components.plain''"
  "qualifies tree_ex ''app.components.k''"
  by (simp_all add: qualifies_def tree_ex_def startswith_def)


text \<open>
  Claim C2, as amended. \<^verbatim>\<open>is_valid_extension\<close> returns false, without raising, for a
  name outside the namespace, a name the module system resolves to nothing, and a module
  that imports but has no callable \<^verbatim>\<open>setup\<close>; \<^verbatim>\<open>get_component_extension_names\<close>
  leaves such candidates out and returns exactly the qualifying ones. When the spec lookup
  or the import of a candidate raises, \<^verbatim>\<open>is_valid_extension\<close> raises that exception,
  and \<^verbatim>\<open>get_component_extension_names\<close> raises the exception of a candidate it walked.
\<close>

theorem discovery_excludes_or_raises:
  "fst (is_valid_extension tree n b) =
     (case probe_error tree n of Some e \<Rightarrow> Inl e | None \<Rightarrow> Inr (qualifies tree n))
   \<and> ((\<forall>m\<in>set walked. probe_error tree m = None) \<longrightarrow>
        (\<exists>names. fst (get_component_extension_names tree walked b) = Inr names
           \<and> set names = {m \<in> set walked. qualifies tree m} \<and> distinct names))
   \<and> ((\<exists>m\<in>set walked. probe_error tree m \<noteq> None) \<longrightarrow>
        (\<exists>m\<in>set walked. \<exists>e. probe_error tree m = Some e
           \<and> fst (get_component_extension_names tree walked b) = Inl e))"
proof (intro conjI impI)
  show "fst (is_valid_extension tree n b) =
     (case probe_error tree n of Some e \<Rightarrow> Inl e | None \<Rightarrow> Inr (qualifies tree n))"
    by (rule is_valid_extension_result)
next
  assume "\<forall>m\<in>set walked. probe_error tree m = None"
  from collect_extensions_returns [OF this, of "[]" b]
  show "\<exists>names. fst (get_component_extension_names tree walked b) = Inr names
           \<and> set names = {m \<in> set walked. qualifies tree m} \<and> distinct names"
    by (simp add: get_component_extension_names_def)
next
  assume "\<exists>m\<in>set walked. probe_error tree m \<noteq> None"
  then obtain m where "m \<in> set walked" "probe_error tree m \<noteq> None" by blast
  from collect_extensions_raises [OF this, of "[]" b]
  show "\<exists>m\<in>set walked. \<exists>e. probe_error tree m = Some e
           \<and> fst (get_component_extension_names tree walked b) = Inl e"
    by (simp add: get_component_extension_names_def)
qed

theorem discovery_excludes_or_raises_witness:
  "fst (is_valid_extension tree_ex ''app.components.plain'' (GhosttyBot config_ex)) = Inr False
   \<and> (\<exists>names. fst (get_component_extension_names tree_ex walked_ok (GhosttyBot config_ex)) = Inr names
        \<and> set names = {m \<in> set walked_ok. qualifies tree_ex m} \<and> distinct names)
   \<and> (\<exists>m\<in>set walked_broken. \<exists>e. probe_error tree_ex m = Some e
        \<and> fst (get_component_extension_names tree_ex walked_broken (GhosttyBot config_ex)) = Inl e)"
proof -
  have ok: "\<forall>m\<in>set walked_ok. probe_error tree_ex m = None"
    by (simp add: walked_ok_def tree_ex_probe)
  have bad: "\<exists>m\<in>set walked_broken. probe_error tree_ex m \<noteq> None"
    by (simp add: walked_broken_def tree_ex_probe)
  from discovery_excludes_or_raises
    [of tree_ex "''app.components.plain''" "GhosttyBot config_ex" walked_ok]
    discovery_excludes_or_raises
    [of tree_ex "''app.components.plain''" "GhosttyBot config_ex" walked_broken]
    ok bad
  show ?thesis by (simp add: tree_ex_probe tree_ex_qualifies)
qed

theorem discovery_raises_on_failing_import:
  "fst (is_valid_extension tree_ex ''app.components.broken'' (GhosttyBot config_ex))
     = Inl (ModuleNotFoundError ''githubkit'')
   \<and> fst (get_component_extension_names tree_ex walked_broken (GhosttyBot config_ex))
     = Inl (ModuleNotFoundError ''githubkit'')"
  by (simp del: collect_extensions.simps(2)
      add: get_component_extension_names_def walked_broken_def is_valid_extension_result
      collect_extensions_step collect_extensions_step_raises
      tree_ex_probe tree_ex_qualifies)





section \<open>The loader: outcomes of a single load or unload\<close>

lemma load_extension_begin_simps [simp]:
  "extensions (load_extension_begin name b) = extensions b"
  "sys_modules (load_extension_begin name b) = sys_modules b"
  "logs (load_extension_begin name b) =
     logs b @ [LogRecord DEBUG ''loading extension {}'' [AStr (removeprefix name ''app.components.'')] None]"
  by (simp_all add: load_extension_begin_def Let_def start_span_def logger_def)

lemma super_load_extension_cases:
  "(\<exists>e. super_load_extension tree name b = (Inl e, b)) \<or>
   (name \<notin> extensions b \<and> tree name = SpecFound (Defines (SetupCallable None)) \<and>
    super_load_extension tree name b =
      (Inr (), b\<lparr>extensions := insert name (extensions b),
                 sys_modules := insert name (sys_modules b)\<rparr>))"
  by (simp add: super_load_extension_def
      split: spec_lookup.split module_body.split setup_attr.split option.split)

lemma load_extension_cases:
  "(\<exists>e. load_extension tree name b = (Inl e, load_extension_begin name b)) \<or>
   (name \<notin> extensions b \<and> tree name = SpecFound (Defines (SetupCallable None)) \<and>
    load_extension tree name b =
      (Inr (), (load_extension_begin name b)\<lparr>extensions := insert name (extensions b),
                 sys_modules := insert name (sys_modules b)\<rparr>))"
  using super_load_extension_cases [of tree name "load_extension_begin name b"]
  by (simp add: load_extension_def)

lemma load_extension_already:
  "name \<in> extensions b \<Longrightarrow>
   load_extension tree name b = (Inl (ExtensionAlreadyLoaded name), load_extension_begin name b)"
  by (simp add: load_extension_def super_load_extension_def)

lemma unload_extension_cases:
  "(name \<notin> extensions b \<and> unload_extension name b = (Inl (ExtensionNotLoaded name), b)) \<or>
   (name \<in> extensions b \<and>
    unload_extension name b =
      (Inr (), b\<lparr>extensions := extensions b - {name}, sys_modules := sys_modules b - {name}\<rparr>))"
  by (simp add: unload_extension_def)

lemma try_extension_ok:
  "(if operation = Load then load_extension tree else unload_extension) name b = (Inr u, b') \<Longrightarrow>
   try_extension pr tree operation name user b = (Inr True, b')"
  by (simp add: try_extension_def)

lemma try_extension_failed:
  "(if operation = Load then load_extension tree else unload_extension) name b = (Inl e, b') \<Longrightarrow>
   is_ExtensionFailed e \<Longrightarrow>
   try_extension pr tree operation name user b =
     (Inr False,
      logger_exception e
        ((case user of Some u \<Rightarrow> pretty_print_account pr u @ '' '' | None \<Rightarrow> [])
         @ ''failed to '' @ operation_str operation @ '' `'' @ name @ ''`'') b')"
  by (simp add: try_extension_def)

lemma try_extension_warned:
  "(if operation = Load then load_extension tree else unload_extension) name b = (Inl e, b') \<Longrightarrow>
   \<not> is_ExtensionFailed e \<Longrightarrow> is_ExtensionError e \<Longrightarrow>
   try_extension pr tree operation name user b =
     (Inr False,
      logger WARNING
        ((case user of Some u \<Rightarrow> a_str u @ '' '' | None \<Rightarrow> [])
         @ ''failed to '' @ operation_str operation @ '' `'' @ name @ ''`: ''
         @ str_error pr e) [] b')"
  by (simp add: try_extension_def)

lemma try_extension_err:
  assumes "(if operation = Load then load_extension tree else unload_extension) name b = (Inl e, b')"
    and "is_ExtensionError e"
  shows "\<exists>m. try_extension pr tree operation name user b =
     (Inr False, b'\<lparr>logs := logs b' @
        [LogRecord (if is_ExtensionFailed e then ERROR else WARNING) m []
           (if is_ExtensionFailed e then Some e else None)]\<rparr>)"
proof (cases "is_ExtensionFailed e")
  case True
  from try_extension_failed [OF assms(1) True] True
  show ?thesis unfolding logger_exception_def by auto
next
  case False
  from try_extension_warned [OF assms(1) False assms(2)] False
  show ?thesis unfolding logger_def by auto
qed

lemma try_extension_true:
  "fst (try_extension pr tree operation name user b) = Inr True \<Longrightarrow>
   fst ((if operation = Load then load_extension tree else unload_extension) name b) = Inr ()"
proof -
  assume a: "fst (try_extension pr tree operation name user b) = Inr True"
  obtain r b' where r: "(if operation = Load then load_extension tree else unload_extension) name b = (r, b')"
    by (cases "(if operation = Load then load_extension tree else unload_extension) name b")
  show ?thesis
  proof (cases r)
    case (Inl e)
    with a r show ?thesis
      by (cases "is_ExtensionFailed e"; cases "is_ExtensionError e") (simp_all add: try_extension_def)
  next
    case (Inr u)
    with r show ?thesis by simp
  qed
qed


lemma load_extension_err_state:
  "fst (load_extension tree name b) = Inl e \<Longrightarrow>
   load_extension tree name b = (Inl e, load_extension_begin name b)"
  using load_extension_cases [of tree name b] by auto

lemma load_extension_ok_state:
  "fst (load_extension tree name b) = Inr () \<Longrightarrow>
   load_extension tree name b =
     (Inr (), (load_extension_begin name b)\<lparr>extensions := insert name (extensions b),
                 sys_modules := insert name (sys_modules b)\<rparr>)"
  using load_extension_cases [of tree name b] by auto

lemma unload_extension_err_state:
  "fst (unload_extension name b) = Inl e \<Longrightarrow> unload_extension name b = (Inl e, b)"
  using unload_extension_cases [of name b] by auto

lemma unload_extension_ok_state:
  "fst (unload_extension name b) = Inr () \<Longrightarrow>
   unload_extension name b =
     (Inr (), b\<lparr>extensions := extensions b - {name}, sys_modules := sys_modules b - {name}\<rparr>)"
  using unload_extension_cases [of name b] by auto

lemma try_load_ok:
  assumes "fst (load_extension tree name b) = Inr ()"
  shows "fst (try_load_extension pr tree name user b) = Inr True
       \<and> name \<in> extensions (snd (try_load_extension pr tree name user b))"
  using try_extension_ok [of Load tree name b "()" _ pr user] load_extension_ok_state [OF assms]
  by (simp add: try_load_extension_def)

lemma try_load_err:
  assumes "fst (load_extension tree name b) = Inl e" "is_ExtensionError e"
  shows "fst (try_load_extension pr tree name user b) = Inr False
       \<and> extensions (snd (try_load_extension pr tree name user b)) = extensions b
       \<and> (\<exists>m. logs (snd (try_load_extension pr tree name user b)) =
             logs (snd (load_extension tree name b)) @
               [LogRecord (if is_ExtensionFailed e then ERROR else WARNING) m []
                  (if is_ExtensionFailed e then Some e else None)])"
proof -
  have l: "(if Load = Load then load_extension tree else unload_extension) name b
             = (Inl e, load_extension_begin name b)"
    using load_extension_err_state [OF assms(1)] by simp
  from try_extension_err [OF l assms(2), of pr user] obtain m where
    "try_extension pr tree Load name user b =
       (Inr False, (load_extension_begin name b)\<lparr>logs := logs (load_extension_begin name b) @
          [LogRecord (if is_ExtensionFailed e then ERROR else WARNING) m []
             (if is_ExtensionFailed e then Some e else None)]\<rparr>)" by blast
  then show ?thesis using l by (simp add: try_load_extension_def)
qed

lemma try_unload_ok:
  assumes "fst (unload_extension name b) = Inr ()"
  shows "fst (try_unload_extension pr tree name user b) = Inr True
       \<and> name \<notin> extensions (snd (try_unload_extension pr tree name user b))"
  using try_extension_ok [of Unload tree name b "()" _ pr user] unload_extension_ok_state [OF assms]
  by (simp add: try_unload_extension_def)

lemma try_unload_err:
  assumes "fst (unload_extension name b) = Inl e" "is_ExtensionError e"
  shows "fst (try_unload_extension pr tree name user b) = Inr False
       \<and> extensions (snd (try_unload_extension pr tree name user b)) = extensions b
       \<and> (\<exists>m. logs (snd (try_unload_extension pr tree name user b)) =
             logs (snd (unload_extension name b)) @
               [LogRecord (if is_ExtensionFailed e then ERROR else WARNING) m []
                  (if is_ExtensionFailed e then Some e else None)])"
proof -
  have l: "(if Unload = Load then load_extension tree else unload_extension) name b = (Inl e, b)"
    using unload_extension_err_state [OF assms(1)] by simp
  from try_extension_err [OF l assms(2), of pr user] obtain m where
    "try_extension pr tree Unload name user b =
       (Inr False, b\<lparr>logs := logs b @
          [LogRecord (if is_ExtensionFailed e then ERROR else WARNING) m []
             (if is_ExtensionFailed e then Some e else None)]\<rparr>)" by blast
  then show ?thesis using l by (simp add: try_unload_extension_def)
qed

text \<open>
  Claim C3. \<^verbatim>\<open>try_load_extension\<close> and \<^verbatim>\<open>try_unload_extension\<close> return \<^verbatim>\<open>True\<close>
  exactly when the underlying operation (\<^verbatim>\<open>load_extension\<close>, \<^verbatim>\<open>unload_extension\<close>)
  succeeds, and the name is then in (load) or out of (unload) the active set. On any
  extension error they return \<^verbatim>\<open>False\<close>, the active set is unchanged, and one record
  is logged: at \<^verbatim>\<open>ERROR\<close> with the exception for \<^verbatim>\<open>ExtensionFailed\<close>, a warning for
  any other extension error. Loading an active name and unloading a name that is not
  active are such errors.
\<close>

theorem try_extension_boolean_outcome:
  "(fst (load_extension tree name b) = Inr () \<longrightarrow>
      fst (try_load_extension pr tree name user b) = Inr True
      \<and> name \<in> extensions (snd (try_load_extension pr tree name user b)))
   \<and> (fst (try_load_extension pr tree name user b) = Inr True \<longrightarrow>
      fst (load_extension tree name b) = Inr ())
   \<and> (\<forall>e. fst (load_extension tree name b) = Inl e \<and> is_ExtensionError e \<longrightarrow>
      fst (try_load_extension pr tree name user b) = Inr False
      \<and> extensions (snd (try_load_extension pr tree name user b)) = extensions b
      \<and> (\<exists>m. logs (snd (try_load_extension pr tree name user b)) =
             logs (snd (load_extension tree name b)) @
               [LogRecord (if is_ExtensionFailed e then ERROR else WARNING) m []
                  (if is_ExtensionFailed e then Some e else None)]))
   \<and> (name \<in> extensions b \<longrightarrow>
      fst (try_load_extension pr tree name user b) = Inr False
      \<and> extensions (snd (try_load_extension pr tree name user b)) = extensions b)
   \<and> (fst (unload_extension name b) = Inr () \<longrightarrow>
      fst (try_unload_extension pr tree name user b) = Inr True
      \<and> name \<notin> extensions (snd (try_unload_extension pr tree name user b)))
   \<and> (fst (try_unload_extension pr tree name user b) = Inr True \<longrightarrow>
      fst (unload_extension name b) = Inr ())
   \<and> (\<forall>e. fst (unload_extension name b) = Inl e \<and> is_ExtensionError e \<longrightarrow>
      fst (try_unload_extension pr tree name user b) = Inr False
      \<and> extensions (snd (try_unload_extension pr tree name user b)) = extensions b
      \<and> (\<exists>m. logs (snd (try_unload_extension pr tree name user b)) =
             logs (snd (unload_extension name b)) @
               [LogRecord (if is_ExtensionFailed e then ERROR else WARNING) m []
                  (if is_ExtensionFailed e then Some e else None)]))
   \<and> (name \<notin> extensions b \<longrightarrow>
      fst (try_unload_extension pr tree name user b) = Inr False
      \<and> extensions (snd (try_unload_extension pr tree name user b)) = extensions b)"
proof (intro conjI impI allI)
  assume "fst (load_extension tree name b) = Inr ()"
  from try_load_ok [OF this]
  show "fst (try_load_extension pr tree name user b) = Inr True"
    and "name \<in> extensions (snd (try_load_extension pr tree name user b))" by blast+
next
  assume "fst (try_load_extension pr tree name user b) = Inr True"
  then show "fst (load_extension tree name b) = Inr ()"
    using try_extension_true [of pr tree Load name user b] by (simp add: try_load_extension_def)
next
  fix e assume "fst (load_extension tree name b) = Inl e \<and> is_ExtensionError e"
  then have "fst (load_extension tree name b) = Inl e" "is_ExtensionError e" by blast+
  from try_load_err [OF this]
  show "fst (try_load_extension pr tree name user b) = Inr False"
    and "extensions (snd (try_load_extension pr tree name user b)) = extensions b"
    and "\<exists>m. logs (snd (try_load_extension pr tree name user b)) =
             logs (snd (load_extension tree name b)) @
               [LogRecord (if is_ExtensionFailed e then ERROR else WARNING) m []
                  (if is_ExtensionFailed e then Some e else None)]" by blast+
next
  assume "name \<in> extensions b"
  then have "fst (load_extension tree name b) = Inl (ExtensionAlreadyLoaded name)"
    by (simp add: load_extension_already)
  from try_load_err [OF this]
  show "fst (try_load_extension pr tree name user b) = Inr False"
    and "extensions (snd (try_load_extension pr tree name user b)) = extensions b" by simp_all
next
  assume "fst (unload_extension name b) = Inr ()"
  from try_unload_ok [OF this]
  show "fst (try_unload_extension pr tree name user b) = Inr True"
    and "name \<notin> extensions (snd (try_unload_extension pr tree name user b))" by blast+
next
  assume "fst (try_unload_extension pr tree name user b) = Inr True"
  then show "fst (unload_extension name b) = Inr ()"
    using try_extension_true [of pr tree Unload name user b] by (simp add: try_unload_extension_def)
next
  fix e assume "fst (unload_extension name b) = Inl e \<and> is_ExtensionError e"
  then have "fst (unload_extension name b) = Inl e" "is_ExtensionError e" by blast+
  from try_unload_err [OF this]
  show "fst (try_unload_extension pr tree name user b) = Inr False"
    and "extensions (snd (try_unload_extension pr tree name user b)) = extensions b"
    and "\<exists>m. logs (snd (try_unload_extension pr tree name user b)) =
             logs (snd (unload_extension name b)) @
               [LogRecord (if is_ExtensionFailed e then ERROR else WARNING) m []
                  (if is_ExtensionFailed e then Some e else None)]" by blast+
next
  assume "name \<notin> extensions b"
  then have "fst (unload_extension name b) = Inl (ExtensionNotLoaded name)"
    by (simp add: unload_extension_def)
  from try_unload_err [OF this]
  show "fst (try_unload_extension pr tree name user b) = Inr False"
    and "extensions (snd (try_unload_extension pr tree name user b)) = extensions b" by simp_all
qed


lemma ex_load_a: "fst (load_extension tree_ex ''app.components.a'' bot_ex) = Inr ()"
  by (simp add: load_extension_def super_load_extension_def tree_ex_def bot_ex_def GhosttyBot_def)

lemma ex_load_k:
  "fst (load_extension tree_ex ''app.components.k'' bot_ex)
     = Inl (ExtensionFailed ''app.components.k'' (RuntimeError ''boom''))"
  by (simp add: load_extension_def super_load_extension_def tree_ex_def bot_ex_def GhosttyBot_def)

lemma ex_bot_simps:
  "extensions bot_ex = {}" "extensions bot_a = {''app.components.a''}"
  "logs bot_ex = []"
  by (simp_all add: bot_ex_def bot_a_def GhosttyBot_def)

theorem try_extension_boolean_outcome_witness:
  "fst (try_load_extension printers_ex tree_ex ''app.components.a'' None bot_ex) = Inr True
   \<and> ''app.components.a'' \<in>
        extensions (snd (try_load_extension printers_ex tree_ex ''app.components.a'' None bot_ex))
   \<and> fst (try_load_extension printers_ex tree_ex ''app.components.k'' None bot_ex) = Inr False
   \<and> extensions (snd (try_load_extension printers_ex tree_ex ''app.components.k'' None bot_ex)) = {}
   \<and> (\<exists>m. logs (snd (try_load_extension printers_ex tree_ex ''app.components.k'' None bot_ex)) =
          logs (snd (load_extension tree_ex ''app.components.k'' bot_ex)) @
            [LogRecord ERROR m []
               (Some (ExtensionFailed ''app.components.k'' (RuntimeError ''boom'')))])
   \<and> fst (try_load_extension printers_ex tree_ex ''app.components.a'' None bot_a) = Inr False
   \<and> extensions (snd (try_load_extension printers_ex tree_ex ''app.components.a'' None bot_a))
        = {''app.components.a''}
   \<and> fst (try_unload_extension printers_ex tree_ex ''app.components.a'' None bot_a) = Inr True
   \<and> ''app.components.a'' \<notin>
        extensions (snd (try_unload_extension printers_ex tree_ex ''app.components.a'' None bot_a))
   \<and> fst (try_unload_extension printers_ex tree_ex ''app.components.a'' None bot_ex) = Inr False
   \<and> extensions (snd (try_unload_extension printers_ex tree_ex ''app.components.a'' None bot_ex)) = {}"
proof -
  have u: "fst (unload_extension ''app.components.a'' bot_a) = Inr ()"
    by (simp add: unload_extension_def ex_bot_simps)
  have f: "is_ExtensionError (ExtensionFailed ''app.components.k'' (RuntimeError ''boom''))"
    "is_ExtensionFailed (ExtensionFailed ''app.components.k'' (RuntimeError ''boom''))"
    by simp_all
  from try_extension_boolean_outcome
         [of tree_ex "''app.components.a''" bot_ex printers_ex None]
       try_extension_boolean_outcome
         [of tree_ex "''app.components.k''" bot_ex printers_ex None]
       try_extension_boolean_outcome
         [of tree_ex "''app.components.a''" bot_a printers_ex None]
       ex_load_a ex_load_k u f
  show ?thesis by (simp add: ex_bot_simps)
qed

section \<open>Bootstrap: the task group over the discovered extensions\<close>

lemma arrange_set [simp]: "set (arrange order names) = set names"
  by (auto simp: arrange_def)

lemma arrange_distinct [simp]: "distinct (arrange order names)"
  by (auto simp: arrange_def)

lemma load_extension_begin_other [simp]:
  "config (load_extension_begin name b) = config b"
  "git_data_loaded (load_extension_begin name b) = git_data_loaded b"
  by (simp_all add: load_extension_begin_def Let_def start_span_def logger_def)


lemma task_group_errs_grow:
  "errs \<noteq> [] \<Longrightarrow> fst (task_group tree sv ns errs b) \<noteq> []"
proof (induction ns arbitrary: errs b)
  case Nil
  then show ?case by simp
next
  case (Cons n ns)
  show ?case
  proof (cases "sv n")
    case False
    with Cons show ?thesis by simp
  next
    case True
    from load_extension_cases [of tree n b] show ?thesis
    proof
      assume "\<exists>e. load_extension tree n b = (Inl e, load_extension_begin n b)"
      then obtain e where "load_extension tree n b = (Inl e, load_extension_begin n b)" ..
      with True Cons.IH [where errs="errs @ [e]"] show ?thesis by simp
    next
      assume "n \<notin> extensions b \<and> tree n = SpecFound (Defines (SetupCallable None)) \<and>
        load_extension tree n b = (Inr (), (load_extension_begin n b)
          \<lparr>extensions := insert n (extensions b), sys_modules := insert n (sys_modules b)\<rparr>)"
      with True Cons.IH [OF Cons.prems] show ?thesis by simp
    qed
  qed
qed

lemma task_group_fails:
  "k \<in> set ns \<Longrightarrow> tree k \<noteq> SpecFound (Defines (SetupCallable None)) \<Longrightarrow>
   fst (task_group tree sv ns errs b) \<noteq> []"
proof (induction ns arbitrary: errs b)
  case Nil
  then show ?case by simp
next
  case (Cons n ns)
  show ?case
  proof (cases "errs = []")
    case False
    then show ?thesis by (rule task_group_errs_grow)
  next
    case True
    from load_extension_cases [of tree n b] show ?thesis
    proof
      assume "\<exists>e. load_extension tree n b = (Inl e, load_extension_begin n b)"
      then obtain e where "load_extension tree n b = (Inl e, load_extension_begin n b)" ..
      with True task_group_errs_grow [of "[e]" tree sv ns] show ?thesis by simp
    next
      assume ok: "n \<notin> extensions b \<and> tree n = SpecFound (Defines (SetupCallable None)) \<and>
        load_extension tree n b = (Inr (), (load_extension_begin n b)
          \<lparr>extensions := insert n (extensions b), sys_modules := insert n (sys_modules b)\<rparr>)"
      with Cons.prems have "k \<in> set ns" by auto
      from Cons.IH [OF this Cons.prems(2)] ok True show ?thesis by simp
    qed
  qed
qed

lemma task_group_extensions:
  "extensions b \<subseteq> extensions (snd (task_group tree sv ns errs b)) \<and>
   extensions (snd (task_group tree sv ns errs b))
     \<subseteq> extensions b \<union> {n \<in> set ns. tree n = SpecFound (Defines (SetupCallable None))}"
proof (induction ns arbitrary: errs b)
  case Nil
  then show ?case by simp
next
  case (Cons n ns)
  show ?case
  proof (cases "errs \<noteq> [] \<and> \<not> sv n")
    case True
    with Cons.IH [where errs=errs and b="load_extension_begin n b"] show ?thesis by auto
  next
    case False
    from load_extension_cases [of tree n b] show ?thesis
    proof
      assume "\<exists>e. load_extension tree n b = (Inl e, load_extension_begin n b)"
      then obtain e where "load_extension tree n b = (Inl e, load_extension_begin n b)" ..
      with False Cons.IH [where errs="errs @ [e]" and b="load_extension_begin n b"] show ?thesis by auto
    next
      assume ok: "n \<notin> extensions b \<and> tree n = SpecFound (Defines (SetupCallable None)) \<and>
        load_extension tree n b = (Inr (), (load_extension_begin n b)
          \<lparr>extensions := insert n (extensions b), sys_modules := insert n (sys_modules b)\<rparr>)"
      with False Cons.IH [where errs=errs and b="(load_extension_begin n b)
          \<lparr>extensions := insert n (extensions b), sys_modules := insert n (sys_modules b)\<rparr>"]
      show ?thesis by auto
    qed
  qed
qed

lemma task_group_logs:
  "\<exists>ds. logs (snd (task_group tree sv ns errs b)) = logs b @ ds \<and> (\<forall>r\<in>set ds. lvl r = DEBUG)"
proof (induction ns arbitrary: errs b)
  case Nil
  then show ?case by simp
next
  case (Cons n ns)
  let ?d = "LogRecord DEBUG ''loading extension {}'' [AStr (removeprefix n ''app.components.'')] None"
  have step: "\<exists>errs' b'. task_group tree sv (n # ns) errs b = task_group tree sv ns errs' b'
      \<and> logs b' = logs b @ [?d]"
  proof (cases "errs \<noteq> [] \<and> \<not> sv n")
    case True
    then have "task_group tree sv (n # ns) errs b = task_group tree sv ns errs (load_extension_begin n b)
      \<and> logs (load_extension_begin n b) = logs b @ [?d]" by simp
    then show ?thesis by blast
  next
    case False
    from load_extension_cases [of tree n b] show ?thesis
    proof
      assume "\<exists>e. load_extension tree n b = (Inl e, load_extension_begin n b)"
      then obtain e where "load_extension tree n b = (Inl e, load_extension_begin n b)" ..
      with False have "task_group tree sv (n # ns) errs b
          = task_group tree sv ns (errs @ [e]) (load_extension_begin n b)
        \<and> logs (load_extension_begin n b) = logs b @ [?d]" by auto
      then show ?thesis by blast
    next
      assume ok: "n \<notin> extensions b \<and> tree n = SpecFound (Defines (SetupCallable None)) \<and>
        load_extension tree n b = (Inr (), (load_extension_begin n b)
          \<lparr>extensions := insert n (extensions b), sys_modules := insert n (sys_modules b)\<rparr>)"
      with False have "task_group tree sv (n # ns) errs b
          = task_group tree sv ns errs ((load_extension_begin n b)
          \<lparr>extensions := insert n (extensions b), sys_modules := insert n (sys_modules b)\<rparr>)
        \<and> logs ((load_extension_begin n b)
          \<lparr>extensions := insert n (extensions b), sys_modules := insert n (sys_modules b)\<rparr>)
           = logs b @ [?d]" by auto
      then show ?thesis by blast
    qed
  qed
  then obtain errs' b' where s: "task_group tree sv (n # ns) errs b = task_group tree sv ns errs' b'"
    and l: "logs b' = logs b @ [?d]" by blast
  from Cons.IH [where errs=errs' and b=b'] obtain ds where
    "logs (snd (task_group tree sv ns errs' b')) = logs b' @ ds" "\<forall>r\<in>set ds. lvl r = DEBUG"
    by blast
  with s l have "logs (snd (task_group tree sv (n # ns) errs b)) = logs b @ (?d # ds)
      \<and> (\<forall>r\<in>set (?d # ds). lvl r = DEBUG)" by simp
  then show ?case by blast
qed

lemma load_extension_error_kind:
  assumes "qualifies tree n" "load_extension tree n b = (Inl e, b')"
  shows "is_ExtensionError e"
  using assms
  by (auto simp: load_extension_def super_load_extension_def qualifies_def
      split: if_splits spec_lookup.splits module_body.splits setup_attr.splits option.splits)

lemma task_group_error_kinds:
  "\<forall>x\<in>set errs. is_ExtensionError x \<Longrightarrow> \<forall>n\<in>set ns. qualifies tree n \<Longrightarrow>
   \<forall>x\<in>set (fst (task_group tree sv ns errs b)). is_ExtensionError x"
proof (induction ns arbitrary: errs b)
  case Nil
  then show ?case by simp
next
  case (Cons n ns)
  have q: "qualifies tree n" and qs: "\<forall>n\<in>set ns. qualifies tree n" using Cons.prems by simp_all
  show ?case
  proof (cases "errs \<noteq> [] \<and> \<not> sv n")
    case True
    with Cons.IH [OF Cons.prems(1) qs] show ?thesis by auto
  next
    case False
    from load_extension_cases [of tree n b] show ?thesis
    proof
      assume "\<exists>e. load_extension tree n b = (Inl e, load_extension_begin n b)"
      then obtain e where e: "load_extension tree n b = (Inl e, load_extension_begin n b)" ..
      from load_extension_error_kind [OF q e] Cons.prems(1)
      have "\<forall>x\<in>set (errs @ [e]). is_ExtensionError x" by simp
      from Cons.IH [OF this qs] e False show ?thesis by auto
    next
      assume ok: "n \<notin> extensions b \<and> tree n = SpecFound (Defines (SetupCallable None)) \<and>
        load_extension tree n b = (Inr (), (load_extension_begin n b)
          \<lparr>extensions := insert n (extensions b), sys_modules := insert n (sys_modules b)\<rparr>)"
      with False Cons.IH [OF Cons.prems(1) qs] show ?thesis by auto
    qed
  qed
qed

lemma load_extension_ok_eq:
  "n \<notin> extensions b \<Longrightarrow> tree n = SpecFound (Defines (SetupCallable None)) \<Longrightarrow>
   load_extension tree n b = (Inr (), (load_extension_begin n b)
          \<lparr>extensions := insert n (extensions b), sys_modules := insert n (sys_modules b)\<rparr>)"
  by (simp add: load_extension_def super_load_extension_def)

lemma load_extension_failed_eq:
  "n \<notin> extensions b \<Longrightarrow> tree n = SpecFound (Defines (SetupCallable (Some e))) \<Longrightarrow>
   load_extension tree n b = (Inl (ExtensionFailed n e), load_extension_begin n b)"
  by (simp add: load_extension_def super_load_extension_def)

lemma task_group_all_ok:
  "\<forall>n\<in>set ns. tree n = SpecFound (Defines (SetupCallable None)) \<Longrightarrow> distinct ns \<Longrightarrow>
   set ns \<inter> extensions b = {} \<Longrightarrow>
   fst (task_group tree sv ns [] b) = [] \<and>
   extensions (snd (task_group tree sv ns [] b)) = extensions b \<union> set ns"
proof (induction ns arbitrary: b)
  case Nil
  then show ?case by simp
next
  case (Cons n ns)
  let ?b' = "(load_extension_begin n b)
          \<lparr>extensions := insert n (extensions b), sys_modules := insert n (sys_modules b)\<rparr>"
  have l: "load_extension tree n b = (Inr (), ?b')"
    using Cons.prems by (intro load_extension_ok_eq) auto
  have "set ns \<inter> extensions ?b' = {}" using Cons.prems by auto
  from Cons.IH [OF _ _ this] Cons.prems l show ?case by auto
qed

lemma task_group_single_failure:
  "\<forall>m. sv m \<Longrightarrow> distinct ns \<Longrightarrow> set ns \<inter> extensions b = {} \<Longrightarrow>
   tree k = SpecFound (Defines (SetupCallable (Some e))) \<Longrightarrow>
   \<forall>n\<in>set ns. n \<noteq> k \<longrightarrow> tree n = SpecFound (Defines (SetupCallable None)) \<Longrightarrow>
   fst (task_group tree sv ns errs b) = errs @ (if k \<in> set ns then [ExtensionFailed k e] else []) \<and>
   extensions (snd (task_group tree sv ns errs b)) = extensions b \<union> (set ns - {k})"
proof (induction ns arbitrary: errs b)
  case Nil
  then show ?case by simp
next
  case (Cons n ns)
  have sv: "sv n" using Cons.prems(1) by simp
  have d: "distinct ns" "n \<notin> set ns" "n \<notin> extensions b" using Cons.prems by auto
  have rest: "\<forall>n\<in>set ns. n \<noteq> k \<longrightarrow> tree n = SpecFound (Defines (SetupCallable None))"
    using Cons.prems(5) by simp
  show ?case
  proof (cases "n = k")
    case True
    have l: "load_extension tree n b = (Inl (ExtensionFailed k e), load_extension_begin n b)"
      using load_extension_failed_eq [OF d(3), of tree e] Cons.prems(4) True by simp
    have "set ns \<inter> extensions (load_extension_begin n b) = {}" using Cons.prems(3) by auto
    from Cons.IH [OF Cons.prems(1) d(1) this Cons.prems(4) rest, of "errs @ [ExtensionFailed k e]"]
    show ?thesis using l sv True d by auto
  next
    case False
    let ?b' = "(load_extension_begin n b)
          \<lparr>extensions := insert n (extensions b), sys_modules := insert n (sys_modules b)\<rparr>"
    have l: "load_extension tree n b = (Inr (), ?b')"
      using load_extension_ok_eq [OF d(3)] Cons.prems(5) False by simp
    have "set ns \<inter> extensions ?b' = {}" using Cons.prems(3) d by auto
    from Cons.IH [OF Cons.prems(1) d(1) this Cons.prems(4) rest, of errs]
    show ?thesis using l sv False d by auto
  qed
qed

lemma get_component_extension_names_returns:
  assumes "\<forall>m\<in>set walked. probe_error tree m = None"
  shows "\<exists>names b'. get_component_extension_names tree walked b = (Inr names, b')
          \<and> extensions b' = extensions b \<and> logs b' = logs b
          \<and> set names = {m \<in> set walked. qualifies tree m} \<and> distinct names"
proof -
  from collect_extensions_returns [OF assms, of "[]" b] obtain names where
    n: "fst (collect_extensions tree walked [] b) = Inr names"
       "set names = {m \<in> set walked. qualifies tree m}" "distinct names" by auto
  let ?b' = "snd (collect_extensions tree walked [] b)"
  from n(1) have "collect_extensions tree walked [] b = (Inr names, ?b')"
    by (simp add: prod_eq_iff)
  moreover have "extensions ?b' = extensions b" "logs ?b' = logs b"
    using collect_extensions_frame [of tree walked "[]" b] by simp_all
  ultimately show ?thesis using n(2,3) by (auto simp: get_component_extension_names_def)
qed

lemma setup_hook_unfold:
  assumes "\<forall>m\<in>set walked. probe_error tree m = None"
  shows "\<exists>names b2. set names = {m \<in> set walked. qualifies tree m} \<and> distinct names
           \<and> extensions b2 = extensions b \<and> logs b2 = logs b
           \<and> setup_hook tree walked order sv b =
               (case task_group tree sv (arrange order names) [] b2 of
                  (errs, b3) \<Rightarrow>
                    if errs = []
                    then (Inr (),
                          logger INFO ''loaded {} extensions'' [AInt (int (card (extensions b3)))] b3)
                    else (Inl (ExceptionGroup errs), b3))"
proof -
  let ?b1 = "load_git_data (start_span ''bot.setup'' ''Initial load'' b)"
  from get_component_extension_names_returns [OF assms, of ?b1] obtain names b2 where
    n: "get_component_extension_names tree walked ?b1 = (Inr names, b2)"
       "extensions b2 = extensions ?b1" "logs b2 = logs ?b1"
       "set names = {m \<in> set walked. qualifies tree m}" "distinct names" by blast
  have "extensions b2 = extensions b" "logs b2 = logs b"
    using n(2,3) by (simp_all add: load_git_data_def start_span_def)
  moreover have "setup_hook tree walked order sv b =
               (case task_group tree sv (arrange order names) [] b2 of
                  (errs, b3) \<Rightarrow>
                    if errs = []
                    then (Inr (),
                          logger INFO ''loaded {} extensions'' [AInt (int (card (extensions b3)))] b3)
                    else (Inl (ExceptionGroup errs), b3))"
    using n(1) by (simp add: setup_hook_def Let_def)
  ultimately show ?thesis using n(4,5) by blast
qed

lemma setup_hook_all_succeed:
  assumes np: "\<forall>m\<in>set walked. probe_error tree m = None" and e: "extensions b = {}"
    and ok: "\<forall>m\<in>set walked. qualifies tree m \<longrightarrow> tree m = SpecFound (Defines (SetupCallable None))"
  shows "fst (setup_hook tree walked order sv b) = Inr ()
     \<and> extensions (snd (setup_hook tree walked order sv b)) = {m \<in> set walked. qualifies tree m}
     \<and> (\<exists>ds. logs (snd (setup_hook tree walked order sv b)) =
           logs b @ ds @ [LogRecord INFO ''loaded {} extensions''
              [AInt (int (card {m \<in> set walked. qualifies tree m}))] None]
           \<and> (\<forall>r\<in>set ds. lvl r = DEBUG))"
proof -
  from setup_hook_unfold [OF np, of b order sv] obtain names b2 where
    n: "set names = {m \<in> set walked. qualifies tree m}" "distinct names"
       "extensions b2 = extensions b" "logs b2 = logs b"
    and h: "setup_hook tree walked order sv b =
               (case task_group tree sv (arrange order names) [] b2 of
                  (errs, b3) \<Rightarrow>
                    if errs = []
                    then (Inr (),
                          logger INFO ''loaded {} extensions'' [AInt (int (card (extensions b3)))] b3)
                    else (Inl (ExceptionGroup errs), b3))" by blast
  let ?ns = "arrange order names"
  obtain errs b3 where t: "task_group tree sv ?ns [] b2 = (errs, b3)"
    by (cases "task_group tree sv ?ns [] b2")
  have all: "\<forall>n\<in>set ?ns. tree n = SpecFound (Defines (SetupCallable None))"
    using ok n(1) by auto
  have "set ?ns \<inter> extensions b2 = {}" using e n(3) by simp
  from task_group_all_ok [OF all arrange_distinct this, of sv] t
  have r: "errs = []" "extensions b3 = {m \<in> set walked. qualifies tree m}"
    using n(1,3) e by auto
  from task_group_logs [of tree sv ?ns "[]" b2] t n(4) obtain ds where
    ds: "logs b3 = logs b @ ds" "\<forall>r\<in>set ds. lvl r = DEBUG" by auto
  have "setup_hook tree walked order sv b =
      (Inr (), logger INFO ''loaded {} extensions''
          [AInt (int (card {m \<in> set walked. qualifies tree m}))] b3)"
    using h t r by simp
  then show ?thesis using r ds by (auto simp: logger_def)
qed

lemma setup_hook_failure:
  assumes np: "\<forall>m\<in>set walked. probe_error tree m = None" and e: "extensions b = {}"
    and k: "k \<in> set walked" "startswith k ''app.components.''"
       "tree k = SpecFound (Defines (SetupCallable (Some x)))"
  shows "(\<exists>errs. errs \<noteq> [] \<and> (\<forall>y\<in>set errs. is_ExtensionError y)
            \<and> fst (setup_hook tree walked order sv b) = Inl (ExceptionGroup errs))
     \<and> k \<notin> extensions (snd (setup_hook tree walked order sv b))
     \<and> extensions (snd (setup_hook tree walked order sv b))
          \<subseteq> {m \<in> set walked. qualifies tree m} - {k}
     \<and> (\<exists>ds. logs (snd (setup_hook tree walked order sv b)) = logs b @ ds
           \<and> (\<forall>r\<in>set ds. lvl r = DEBUG))
     \<and> ((\<forall>m. sv m) \<and>
         (\<forall>m\<in>set walked. qualifies tree m \<and> m \<noteq> k \<longrightarrow>
             tree m = SpecFound (Defines (SetupCallable None))) \<longrightarrow>
           fst (setup_hook tree walked order sv b) = Inl (ExceptionGroup [ExtensionFailed k x])
         \<and> extensions (snd (setup_hook tree walked order sv b))
             = {m \<in> set walked. qualifies tree m} - {k})"
proof -
  from setup_hook_unfold [OF np, of b order sv] obtain names b2 where
    n: "set names = {m \<in> set walked. qualifies tree m}" "distinct names"
       "extensions b2 = extensions b" "logs b2 = logs b"
    and h: "setup_hook tree walked order sv b =
               (case task_group tree sv (arrange order names) [] b2 of
                  (errs, b3) \<Rightarrow>
                    if errs = []
                    then (Inr (),
                          logger INFO ''loaded {} extensions'' [AInt (int (card (extensions b3)))] b3)
                    else (Inl (ExceptionGroup errs), b3))" by blast
  let ?ns = "arrange order names"
  obtain errs b3 where t: "task_group tree sv ?ns [] b2 = (errs, b3)"
    by (cases "task_group tree sv ?ns [] b2")
  have qk: "qualifies tree k" using k by (simp add: qualifies_def)
  then have kin: "k \<in> set ?ns" using n(1) k(1) by simp
  have nok: "tree k \<noteq> SpecFound (Defines (SetupCallable None))" using k(3) by simp
  from task_group_fails [where tree=tree and k=k and ns="?ns" and sv=sv and errs="[]" and b=b2, OF kin nok] t have ne: "errs \<noteq> []" by simp
  have "\<forall>n\<in>set ?ns. qualifies tree n" using n(1) by simp
  from task_group_error_kinds [OF _ this, of "[]" sv b2] t
  have kinds: "\<forall>y\<in>set errs. is_ExtensionError y" by simp
  have sh: "setup_hook tree walked order sv b = (Inl (ExceptionGroup errs), b3)"
    using h t ne by simp
  from task_group_extensions [of b2 tree sv ?ns "[]"] t n(1,3) e
  have ext: "extensions b3 \<subseteq> {m \<in> set walked. qualifies tree m} - {k}"
    using nok by (auto simp: qualifies_def)
  from task_group_logs [of tree sv ?ns "[]" b2] t n(4) obtain ds where
    ds: "logs b3 = logs b @ ds" "\<forall>r\<in>set ds. lvl r = DEBUG" by auto
  have c: "fst (setup_hook tree walked order sv b) = Inl (ExceptionGroup [ExtensionFailed k x])
         \<and> extensions (snd (setup_hook tree walked order sv b))
             = {m \<in> set walked. qualifies tree m} - {k}"
    if sv: "\<forall>m. sv m"
      and others: "\<forall>m\<in>set walked. qualifies tree m \<and> m \<noteq> k \<longrightarrow>
             tree m = SpecFound (Defines (SetupCallable None))"
  proof -
    have o: "\<forall>n\<in>set ?ns. n \<noteq> k \<longrightarrow> tree n = SpecFound (Defines (SetupCallable None))"
      using others n(1) by auto
    have "set ?ns \<inter> extensions b2 = {}" using e n(3) by simp
    from task_group_single_failure [OF sv arrange_distinct this k(3) o, of "[]"] t kin n(1,3) e
    have "errs = [ExtensionFailed k x]" "extensions b3 = {m \<in> set walked. qualifies tree m} - {k}"
      by auto
    with sh show ?thesis by simp
  qed
  show ?thesis
    using sh ne kinds ext ds c by auto
qed

lemma ex_walked:
  "\<forall>m\<in>set walked_ok. probe_error tree_ex m = None"
  "\<forall>m\<in>set walked_a. probe_error tree_ex m = None"
  by (simp_all add: walked_ok_def walked_a_def tree_ex_probe)

lemma ex_tree:
  "tree_ex ''app.components.a'' = SpecFound (Defines (SetupCallable None))"
  "tree_ex ''app.components.k'' = SpecFound (Defines (SetupCallable (Some (RuntimeError ''boom''))))"
  "tree_ex ''app.components.plain'' = SpecFound (Defines NoSetup)"
  by (simp_all add: tree_ex_def)

lemma ex_sw:
  "startswith ''app.components.a'' ''app.components.''"
  "startswith ''app.components.k'' ''app.components.''"
  "startswith ''app.components.plain'' ''app.components.''"
  by (simp_all add: startswith_def)

lemma ex_discovery:
  "\<exists>b2. get_component_extension_names tree_ex walked_ok
            (load_git_data (start_span ''bot.setup'' ''Initial load'' bot_ex))
          = (Inr [''app.components.a'', ''app.components.k''], b2)
        \<and> extensions b2 = {} \<and> logs b2 = []"
proof -
  let ?b1 = "load_git_data (start_span ''bot.setup'' ''Initial load'' bot_ex)"
  let ?b2 = "snd (collect_extensions tree_ex walked_ok [] ?b1)"
  have f: "fst (collect_extensions tree_ex walked_ok [] ?b1)
             = Inr [''app.components.a'', ''app.components.k'']"
    by (simp del: collect_extensions.simps(2)
        add: walked_ok_def collect_extensions_step tree_ex_probe tree_ex_qualifies)
  have "extensions ?b2 = {}" "logs ?b2 = []"
    using collect_extensions_frame [of tree_ex walked_ok "[]" ?b1]
    by (simp_all add: load_git_data_def start_span_def ex_bot_simps)
  moreover from f have "get_component_extension_names tree_ex walked_ok ?b1
      = (Inr [''app.components.a'', ''app.components.k''], ?b2)"
    by (simp add: get_component_extension_names_def prod_eq_iff)
  ultimately show ?thesis by blast
qed

text \<open>
  Claim C1, as amended. \<^verbatim>\<open>setup_hook\<close> runs \<^verbatim>\<open>load_extension\<close>, which catches
  nothing, in a task group. When discovery raises nothing and every discovered module's
  \<^verbatim>\<open>setup\<close> returns, all of them end active and the count is logged. When the
  \<^verbatim>\<open>setup\<close> of a discovered module \<open>k\<close> raises, \<^verbatim>\<open>setup_hook\<close> raises an exception
  group of extension errors (startup is aborted), \<open>k\<close> is not active, only debug lines
  are logged (no failure record and no count), and the other discovered modules are
  active at most; they are all active, and the group holds exactly the failure of \<open>k\<close>,
  when \<open>k\<close> is the only failing module and every other task finishes in spite of the
  abort. This holds for every order of completion and every choice of the tasks that
  outrun the cancellation. The fresh bot has no active extension.
\<close>

theorem setup_hook_fan_out:
  "((\<forall>m\<in>set walked. probe_error tree m = None) \<and> extensions b = {} \<and>
      (\<forall>m\<in>set walked. qualifies tree m \<longrightarrow> tree m = SpecFound (Defines (SetupCallable None))) \<longrightarrow>
        fst (setup_hook tree walked order sv b) = Inr ()
        \<and> extensions (snd (setup_hook tree walked order sv b)) = {m \<in> set walked. qualifies tree m}
        \<and> (\<exists>ds. logs (snd (setup_hook tree walked order sv b)) =
               logs b @ ds @ [LogRecord INFO ''loaded {} extensions''
                  [AInt (int (card {m \<in> set walked. qualifies tree m}))] None]
               \<and> (\<forall>r\<in>set ds. lvl r = DEBUG)))
   \<and> ((\<forall>m\<in>set walked. probe_error tree m = None) \<and> extensions b = {} \<and> k \<in> set walked \<and>
       startswith k ''app.components.'' \<and> tree k = SpecFound (Defines (SetupCallable (Some x))) \<longrightarrow>
        (\<exists>errs. errs \<noteq> [] \<and> (\<forall>y\<in>set errs. is_ExtensionError y)
            \<and> fst (setup_hook tree walked order sv b) = Inl (ExceptionGroup errs))
        \<and> k \<notin> extensions (snd (setup_hook tree walked order sv b))
        \<and> extensions (snd (setup_hook tree walked order sv b))
             \<subseteq> {m \<in> set walked. qualifies tree m} - {k}
        \<and> (\<exists>ds. logs (snd (setup_hook tree walked order sv b)) = logs b @ ds
              \<and> (\<forall>r\<in>set ds. lvl r = DEBUG))
        \<and> ((\<forall>m. sv m) \<and>
            (\<forall>m\<in>set walked. qualifies tree m \<and> m \<noteq> k \<longrightarrow>
                tree m = SpecFound (Defines (SetupCallable None))) \<longrightarrow>
              fst (setup_hook tree walked order sv b) = Inl (ExceptionGroup [ExtensionFailed k x])
            \<and> extensions (snd (setup_hook tree walked order sv b))
                = {m \<in> set walked. qualifies tree m} - {k}))"
proof (intro conjI impI)
  assume h: "(\<forall>m\<in>set walked. probe_error tree m = None) \<and> extensions b = {} \<and>
      (\<forall>m\<in>set walked. qualifies tree m \<longrightarrow> tree m = SpecFound (Defines (SetupCallable None)))"
  then have h1: "\<forall>m\<in>set walked. probe_error tree m = None" and h2: "extensions b = {}"
    and h3: "\<forall>m\<in>set walked. qualifies tree m \<longrightarrow> tree m = SpecFound (Defines (SetupCallable None))"
    by simp_all
  note r = setup_hook_all_succeed [OF h1 h2 h3, of order sv]
  from r show "fst (setup_hook tree walked order sv b) = Inr ()" by (elim conjE)
  from r show "extensions (snd (setup_hook tree walked order sv b)) = {m \<in> set walked. qualifies tree m}"
    by (elim conjE)
  from r show "\<exists>ds. logs (snd (setup_hook tree walked order sv b)) =
               logs b @ ds @ [LogRecord INFO ''loaded {} extensions''
                  [AInt (int (card {m \<in> set walked. qualifies tree m}))] None]
               \<and> (\<forall>r\<in>set ds. lvl r = DEBUG)" by (elim conjE)
next
  assume h: "(\<forall>m\<in>set walked. probe_error tree m = None) \<and> extensions b = {} \<and> k \<in> set walked \<and>
       startswith k ''app.components.'' \<and> tree k = SpecFound (Defines (SetupCallable (Some x)))"
  then have h1: "\<forall>m\<in>set walked. probe_error tree m = None" and h2: "extensions b = {}"
    and h3: "k \<in> set walked" and h4: "startswith k ''app.components.''"
    and h5: "tree k = SpecFound (Defines (SetupCallable (Some x)))"
    by simp_all
  note r = setup_hook_failure [OF h1 h2 h3 h4 h5, of order sv]
  from r show "\<exists>errs. errs \<noteq> [] \<and> (\<forall>y\<in>set errs. is_ExtensionError y)
            \<and> fst (setup_hook tree walked order sv b) = Inl (ExceptionGroup errs)" by (elim conjE)
  from r show "k \<notin> extensions (snd (setup_hook tree walked order sv b))" by (elim conjE)
  from r show "extensions (snd (setup_hook tree walked order sv b))
             \<subseteq> {m \<in> set walked. qualifies tree m} - {k}" by (elim conjE)
  from r show "\<exists>ds. logs (snd (setup_hook tree walked order sv b)) = logs b @ ds
              \<and> (\<forall>r\<in>set ds. lvl r = DEBUG)" by (elim conjE)
  assume c: "(\<forall>m. sv m) \<and>
            (\<forall>m\<in>set walked. qualifies tree m \<and> m \<noteq> k \<longrightarrow>
                tree m = SpecFound (Defines (SetupCallable None)))"
  from r have rc: "(\<forall>m. sv m) \<and>
            (\<forall>m\<in>set walked. qualifies tree m \<and> m \<noteq> k \<longrightarrow>
                tree m = SpecFound (Defines (SetupCallable None))) \<longrightarrow>
              fst (setup_hook tree walked order sv b) = Inl (ExceptionGroup [ExtensionFailed k x])
            \<and> extensions (snd (setup_hook tree walked order sv b))
                = {m \<in> set walked. qualifies tree m} - {k}" by (elim conjE)
  from rc [rule_format, OF c]
  show "fst (setup_hook tree walked order sv b) = Inl (ExceptionGroup [ExtensionFailed k x])"
    and "extensions (snd (setup_hook tree walked order sv b))
                = {m \<in> set walked. qualifies tree m} - {k}" by simp_all
qed

theorem setup_hook_fan_out_witness:
  "fst (setup_hook tree_ex walked_a [] all_survive bot_ex) = Inr ()
   \<and> extensions (snd (setup_hook tree_ex walked_a [] all_survive bot_ex))
        = {m \<in> set walked_a. qualifies tree_ex m}
   \<and> fst (setup_hook tree_ex walked_ok [] all_survive bot_ex)
        = Inl (ExceptionGroup [ExtensionFailed ''app.components.k'' (RuntimeError ''boom'')])
   \<and> ''app.components.k'' \<notin> extensions (snd (setup_hook tree_ex walked_ok [] all_survive bot_ex))
   \<and> extensions (snd (setup_hook tree_ex walked_ok [] all_survive bot_ex))
        = {m \<in> set walked_ok. qualifies tree_ex m} - {''app.components.k''}"
proof -
  have a: "(\<forall>m\<in>set walked_a. probe_error tree_ex m = None) \<and> extensions bot_ex = {} \<and>
      (\<forall>m\<in>set walked_a. qualifies tree_ex m \<longrightarrow>
          tree_ex m = SpecFound (Defines (SetupCallable None)))"
    by (simp add: walked_a_def ex_tree tree_ex_qualifies tree_ex_probe ex_bot_simps)
  have f: "(\<forall>m\<in>set walked_ok. probe_error tree_ex m = None) \<and> extensions bot_ex = {} \<and>
       ''app.components.k'' \<in> set walked_ok \<and>
       startswith ''app.components.k'' ''app.components.'' \<and>
       tree_ex ''app.components.k'' = SpecFound (Defines (SetupCallable (Some (RuntimeError ''boom''))))"
    by (simp add: walked_ok_def ex_tree tree_ex_probe ex_bot_simps ex_sw)
  have o: "(\<forall>m. all_survive m) \<and>
     (\<forall>m\<in>set walked_ok. qualifies tree_ex m \<and> m \<noteq> ''app.components.k'' \<longrightarrow>
             tree_ex m = SpecFound (Defines (SetupCallable None)))"
    by (simp add: walked_ok_def ex_tree tree_ex_qualifies all_survive_def)
  have A: "fst (setup_hook tree_ex walked_a [] all_survive bot_ex) = Inr ()
     \<and> extensions (snd (setup_hook tree_ex walked_a [] all_survive bot_ex))
        = {m \<in> set walked_a. qualifies tree_ex m}"
    using setup_hook_fan_out [where tree=tree_ex and walked=walked_a and order="[]"
           and sv=all_survive and b=bot_ex, THEN conjunct1, rule_format, OF a]
    by (elim conjE) (intro conjI, assumption+)
  note B = setup_hook_fan_out [where tree=tree_ex and walked=walked_ok and order="[]"
           and sv=all_survive and b=bot_ex and k="''app.components.k''"
           and x="RuntimeError ''boom''", THEN conjunct2, rule_format, OF f]
  have B1: "''app.components.k'' \<notin> extensions (snd (setup_hook tree_ex walked_ok [] all_survive bot_ex))"
    using B by (elim conjE)
  have B2: "(\<forall>m. all_survive m) \<and>
     (\<forall>m\<in>set walked_ok. qualifies tree_ex m \<and> m \<noteq> ''app.components.k'' \<longrightarrow>
             tree_ex m = SpecFound (Defines (SetupCallable None))) \<longrightarrow>
     fst (setup_hook tree_ex walked_ok [] all_survive bot_ex)
        = Inl (ExceptionGroup [ExtensionFailed ''app.components.k'' (RuntimeError ''boom'')])
     \<and> extensions (snd (setup_hook tree_ex walked_ok [] all_survive bot_ex))
        = {m \<in> set walked_ok. qualifies tree_ex m} - {''app.components.k''}"
    using B by (elim conjE)
  from A B1 B2 [rule_format, OF o] show ?thesis by (elim conjE) (intro conjI, assumption+)
qed

theorem setup_hook_aborts_on_failed_activation:
  "fst (setup_hook tree_ex walked_ok [] all_survive bot_ex)
      = Inl (ExceptionGroup [ExtensionFailed ''app.components.k'' (RuntimeError ''boom'')])
   \<and> map lvl (logs (snd (setup_hook tree_ex walked_ok [] all_survive bot_ex))) = [DEBUG, DEBUG]
   \<and> fst (setup_hook tree_ex walked_ok [''app.components.k''] none_survive bot_ex)
      = Inl (ExceptionGroup [ExtensionFailed ''app.components.k'' (RuntimeError ''boom'')])
   \<and> map lvl (logs (snd (setup_hook tree_ex walked_ok [''app.components.k''] none_survive bot_ex)))
      = [DEBUG, DEBUG]
   \<and> extensions (snd (setup_hook tree_ex walked_ok [''app.components.k''] none_survive bot_ex)) = {}"
proof -
  from ex_discovery obtain b2 where
    d: "get_component_extension_names tree_ex walked_ok
            (load_git_data (start_span ''bot.setup'' ''Initial load'' bot_ex))
          = (Inr [''app.components.a'', ''app.components.k''], b2)"
    and e: "extensions b2 = {}" and l: "logs b2 = []" by blast
  show ?thesis
    by (simp add: setup_hook_def Let_def d e l arrange_def
        load_extension_def super_load_extension_def ex_tree all_survive_def none_survive_def)
qed

section \<open>The resource cache: memoization, resolution and defects\<close>

lemma cached_property_hit:
  "slot b = Some v \<Longrightarrow> cached_property slot store fget b = (Inr v, b)"
  by (simp add: cached_property_def)

lemma cached_property_miss:
  "slot b = None \<Longrightarrow>
   cached_property slot store fget b =
     (case fget b of (Inl e, b') \<Rightarrow> (Inl e, b') | (Inr v, b') \<Rightarrow> (Inr v, store v b'))"
  by (simp add: cached_property_def)

lemma cached_property_slot:
  assumes st: "\<And>v b. slot (store v b) = Some v"
    and r: "cached_property slot store fget b = (Inr v, b')"
  shows "slot b' = Some v"
proof (cases "slot b")
  case (Some w)
  with r show ?thesis by (simp add: cached_property_def)
next
  case None
  obtain x b1 where f: "fget b = (x, b1)" by (cases "fget b")
  show ?thesis
  proof (cases x)
    case (Inl e)
    with r None f show ?thesis by (simp add: cached_property_def)
  next
    case (Inr w)
    with r None f have "v = w" "b' = store w b1" by (auto simp: cached_property_def)
    with st show ?thesis by simp
  qed
qed

lemma cached_property_again:
  assumes st: "\<And>v b. slot (store v b) = Some v"
    and r: "cached_property slot store fget b = (Inr v, b')"
  shows "cached_property slot store fget' b' = (Inr v, b')"
  using cached_property_slot [of slot store, OF st r] by (rule cached_property_hit)

lemma ghostty_guild_again:
  "ghostty_guild gw b = (Inr g, b') \<Longrightarrow> ghostty_guild gw' b' = (Inr g, b')"
  unfolding ghostty_guild_def by (rule cached_property_again) simp_all

lemma ghostty_guild_slot:
  "ghostty_guild gw b = (Inr g, b') \<Longrightarrow> cached_ghostty_guild b' = Some g"
  unfolding ghostty_guild_def by (rule cached_property_slot [where fget="ghostty_guild_fget gw"]) simp_all

lemma log_channel_slot:
  "log_channel gw b = (Inr c, b') \<Longrightarrow> cached_log_channel b' = Some c"
  unfolding log_channel_def by (rule cached_property_slot [where fget="log_channel_fget gw"]) simp_all

lemma help_channel_slot:
  "help_channel gw b = (Inr c, b') \<Longrightarrow> cached_help_channel b' = Some c"
  unfolding help_channel_def by (rule cached_property_slot [where fget="help_channel_fget gw"]) simp_all

lemma webhook_channels_slot:
  "webhook_channels gw b = (Inr m, b') \<Longrightarrow> cached_webhook_channels b' = Some m"
  unfolding webhook_channels_def
  by (rule cached_property_slot [where fget="webhook_channels_fget gw"]) simp_all

text \<open>
  Claim C8. Each lazy accessor computes its value at most once: an access that returns a
  value leaves it in the accessor's slot, and with the slot filled every access returns
  that value and leaves the bot unchanged, so nothing is logged and the gateway is not
  read, whatever the platform state has become. (An access that raises stores nothing, and
  the next access computes again.) Objects are values here, so the identical object is the
  equal value.
\<close>

theorem lazy_accessors_compute_once:
  "(ghostty_guild gw b = (Inr g, b') \<longrightarrow> cached_ghostty_guild b' = Some g)
   \<and> (cached_ghostty_guild b2 = Some g \<longrightarrow> ghostty_guild gw' b2 = (Inr g, b2))
   \<and> (log_channel gw b = (Inr c, b') \<longrightarrow> cached_log_channel b' = Some c)
   \<and> (cached_log_channel b2 = Some c \<longrightarrow> log_channel gw' b2 = (Inr c, b2))
   \<and> (help_channel gw b = (Inr h, b') \<longrightarrow> cached_help_channel b' = Some h)
   \<and> (cached_help_channel b2 = Some h \<longrightarrow> help_channel gw' b2 = (Inr h, b2))
   \<and> (webhook_channels gw b = (Inr m, b') \<longrightarrow> cached_webhook_channels b' = Some m)
   \<and> (cached_webhook_channels b2 = Some m \<longrightarrow> webhook_channels gw' b2 = (Inr m, b2))"
proof (intro conjI impI)
  show "cached_ghostty_guild b' = Some g" if "ghostty_guild gw b = (Inr g, b')"
    using that by (rule ghostty_guild_slot)
  show "ghostty_guild gw' b2 = (Inr g, b2)" if "cached_ghostty_guild b2 = Some g"
    unfolding ghostty_guild_def using that by (rule cached_property_hit)
  show "cached_log_channel b' = Some c" if "log_channel gw b = (Inr c, b')"
    using that by (rule log_channel_slot)
  show "log_channel gw' b2 = (Inr c, b2)" if "cached_log_channel b2 = Some c"
    unfolding log_channel_def using that by (rule cached_property_hit)
  show "cached_help_channel b' = Some h" if "help_channel gw b = (Inr h, b')"
    using that by (rule help_channel_slot)
  show "help_channel gw' b2 = (Inr h, b2)" if "cached_help_channel b2 = Some h"
    unfolding help_channel_def using that by (rule cached_property_hit)
  show "cached_webhook_channels b' = Some m" if "webhook_channels gw b = (Inr m, b')"
    using that by (rule webhook_channels_slot)
  show "webhook_channels gw' b2 = (Inr m, b2)" if "cached_webhook_channels b2 = Some m"
    unfolding webhook_channels_def using that by (rule cached_property_hit)
qed

lemma ex_get:
  "get_guild gateway_ex 1 = Some guild_ex"
  "get_channel gateway_ex 10 = Some ch_log"
  "get_channel gateway_ex 11 = Some ch_help"
  "get_channel gateway_ex 21 = Some ch_voice"
  "guild_get_channel guild_ex 20 = Some ch_feed"
  "guild_get_channel guild_ex 21 = Some ch_voice"
  by (simp_all add: get_guild_def get_channel_def guild_get_channel_def gateway_ex_def
      guild_ex_def guild_other_def ch_log_def ch_help_def ch_feed_def ch_voice_def)

lemma ex_cfg:
  "guild_id config_set = Some 1" "log_channel_id config_set = 10" "help_channel_id config_set = 11"
  "webhook_channel_ids config_set = [(''main'', 20)]"
  by (simp_all add: config_set_def)

lemma ex_init:
  "config (GhosttyBot cfg) = cfg" "cached_ghostty_guild (GhosttyBot cfg) = None"
  "cached_log_channel (GhosttyBot cfg) = None" "cached_help_channel (GhosttyBot cfg) = None"
  "cached_webhook_channels (GhosttyBot cfg) = None" "logs (GhosttyBot cfg) = []"
  "priv_ghostty_emojis (GhosttyBot cfg) = Map.empty" "extensions (GhosttyBot cfg) = {}"
  "effects (GhosttyBot cfg) = []"
  by (simp_all add: GhosttyBot_def)

lemma ex_first_guild:
  "fst (ghostty_guild gateway_ex (GhosttyBot config_set)) = Inr guild_ex"
  by (simp add: ghostty_guild_def cached_property_miss ex_init ghostty_guild_fget_def Let_def
      logger_def ex_cfg ex_get)


lemma logger_simps [simp]:
  "config (logger l m a b) = config b"
  "cached_ghostty_guild (logger l m a b) = cached_ghostty_guild b"
  "cached_log_channel (logger l m a b) = cached_log_channel b"
  "cached_help_channel (logger l m a b) = cached_help_channel b"
  "cached_webhook_channels (logger l m a b) = cached_webhook_channels b"
  "priv_ghostty_emojis (logger l m a b) = priv_ghostty_emojis b"
  "effects (logger l m a b) = effects b"
  "extensions (logger l m a b) = extensions b"
  "cogs (logger l m a b) = cogs b"
  "handler_level (logger l m a b) = handler_level b"
  "logs (logger l m a b) = logs b @ [LogRecord l m a None]"
  by (simp_all add: logger_def)

lemma accepts_logger [simp]: "accepts (logger l m a b) l' = accepts b l'"
  by (simp add: accepts_def)

lemma logger_formatted_returns:
  "format_error m as = None \<Longrightarrow> logger_formatted l m as b = (Inr (), logger l m as b)"
  by (simp add: logger_formatted_def)

lemma logger_formatted_no_args:
  "logger_formatted l m [] b = (Inr (), logger l m [] b)"
  by (simp add: logger_formatted_def)

lemma templates_format:
  "format_error ''loading extension {}'' [a] = None"
  "format_error ''loaded {} extensions'' [a] = None"
  "format_error
     ''BOT_GUILD_ID unset or specified guild not found; using bot's first guild: {} (ID: {})''
     [a, c] = None"
  "format_error ''ping sent by {}'' [a] = None"
  by (simp_all add: format_error_def arg_name_def)

lemma format_error_webhook:
  "format_error ''fetching {feed_type} webhook channel'' [a] = Some (KeyError ''feed_type'')"
  by (simp add: format_error_def arg_name_def is_index_def)

lemma logger_formatted_webhook:
  "logger_formatted DEBUG ''fetching {feed_type} webhook channel'' [AStr ft] b =
     (if accepts b DEBUG then (Inl (KeyError ''feed_type''), b)
      else (Inr (), logger DEBUG ''fetching {feed_type} webhook channel'' [AStr ft] b))"
  by (simp add: logger_formatted_def format_error_webhook)

lemma ghostty_guild_fget_cases:
  "ghostty_guild_fget gw b =
     (case (case guild_id (config b) of None \<Rightarrow> None
            | Some i \<Rightarrow> if i = 0 then None else get_guild gw i) of
        Some guild \<Rightarrow>
          (Inr guild, logger TRACE ''found ghostty guild'' []
                        (logger DEBUG ''fetching ghostty guild'' [] b))
      | None \<Rightarrow>
          (case guilds gw of
             [] \<Rightarrow> (Inl IndexError, logger DEBUG ''fetching ghostty guild'' [] b)
           | g0 # gs \<Rightarrow>
               (Inr g0,
                logger INFO
                  ''BOT_GUILD_ID unset or specified guild not found; using bot's first guild: {} (ID: {})''
                  [AStr (g_name g0), AInt (g_id g0)]
                  (logger DEBUG ''fetching ghostty guild'' [] b))))"
  by (simp add: ghostty_guild_fget_def Let_def)

lemma ghostty_guild_fget_frame:
  assumes "ghostty_guild_fget gw b = (r, b')"
  shows "config b' = config b \<and> cached_ghostty_guild b' = cached_ghostty_guild b
       \<and> cached_log_channel b' = cached_log_channel b
       \<and> cached_webhook_channels b' = cached_webhook_channels b
       \<and> priv_ghostty_emojis b' = priv_ghostty_emojis b \<and> effects b' = effects b
       \<and> handler_level b' = handler_level b"
  using assms unfolding ghostty_guild_fget_cases
  by (auto split: option.splits list.splits if_splits)

lemma ghostty_guild_fget_logger:
  "fst (ghostty_guild_fget gw (logger l m a b)) = fst (ghostty_guild_fget gw b)"
  unfolding ghostty_guild_fget_cases
  by (auto split: option.splits list.splits if_splits)

lemma ghostty_guild_frame:
  assumes "ghostty_guild gw b = (r, b')"
  shows "config b' = config b
       \<and> cached_log_channel b' = cached_log_channel b
       \<and> cached_webhook_channels b' = cached_webhook_channels b
       \<and> priv_ghostty_emojis b' = priv_ghostty_emojis b \<and> effects b' = effects b
       \<and> handler_level b' = handler_level b"
proof (cases "cached_ghostty_guild b")
  case (Some g)
  with assms show ?thesis by (simp add: ghostty_guild_def cached_property_def)
next
  case None
  obtain x b1 where f: "ghostty_guild_fget gw b = (x, b1)" by (cases "ghostty_guild_fget gw b")
  from ghostty_guild_fget_frame [OF f] assms None f show ?thesis
    by (cases x) (auto simp: ghostty_guild_def cached_property_def)
qed

lemma ghostty_guild_logger:
  "fst (ghostty_guild gw (logger l m a b)) = fst (ghostty_guild gw b)"
proof (cases "cached_ghostty_guild b")
  case (Some g)
  then show ?thesis by (simp add: ghostty_guild_def cached_property_def)
next
  case None
  obtain x b1 where f: "ghostty_guild_fget gw b = (x, b1)" by (cases "ghostty_guild_fget gw b")
  obtain y b2 where f2: "ghostty_guild_fget gw (logger l m a b) = (y, b2)"
    by (cases "ghostty_guild_fget gw (logger l m a b)")
  from ghostty_guild_fget_logger [of gw l m a b] f f2 have "y = x" by simp
  with None f f2 show ?thesis
    by (cases x) (simp_all add: ghostty_guild_def cached_property_def)
qed

text \<open>
  Claim C6. On the first access, a configured guild id (set: neither \<^verbatim>\<open>None\<close> nor 0, by
  Python's truthiness) that the gateway resolves gives the configured guild; otherwise the
  first guild of the client's list is returned and the fallback is logged at \<^verbatim>\<open>INFO\<close>;
  and with at least one guild in the client's list the accessor returns a guild in every
  state of the bot.
\<close>

theorem ghostty_guild_resolution:
  "(cached_ghostty_guild b = None \<and> guild_id (config b) = Some i \<and> i \<noteq> 0
      \<and> get_guild gw i = Some g \<longrightarrow>
        fst (ghostty_guild gw b) = Inr g)
   \<and> (cached_ghostty_guild b = None
      \<and> (guild_id (config b) = None \<or> guild_id (config b) = Some 0
          \<or> (\<exists>j. guild_id (config b) = Some j \<and> get_guild gw j = None))
      \<and> guilds gw = g0 # gs \<longrightarrow>
        fst (ghostty_guild gw b) = Inr g0
        \<and> logs (snd (ghostty_guild gw b)) =
            logs b @ [LogRecord DEBUG ''fetching ghostty guild'' [] None,
                      LogRecord INFO
                        ''BOT_GUILD_ID unset or specified guild not found; using bot's first guild: {} (ID: {})''
                        [AStr (g_name g0), AInt (g_id g0)] None])
   \<and> (guilds gw \<noteq> [] \<longrightarrow> (\<exists>g'. fst (ghostty_guild gw b) = Inr g'))"
proof (intro conjI impI)
  assume "cached_ghostty_guild b = None \<and> guild_id (config b) = Some i \<and> i \<noteq> 0
      \<and> get_guild gw i = Some g"
  then show "fst (ghostty_guild gw b) = Inr g"
    by (simp add: ghostty_guild_def cached_property_miss ghostty_guild_fget_cases)
next
  assume h: "cached_ghostty_guild b = None
      \<and> (guild_id (config b) = None \<or> guild_id (config b) = Some 0
          \<or> (\<exists>j. guild_id (config b) = Some j \<and> get_guild gw j = None))
      \<and> guilds gw = g0 # gs"
  then have n: "(case guild_id (config b) of None \<Rightarrow> None
            | Some i \<Rightarrow> if i = 0 then None else get_guild gw i) = None"
    by (auto split: option.splits)
  from h have c: "cached_ghostty_guild b = None" and gs: "guilds gw = g0 # gs" by simp_all
  have e: "ghostty_guild gw b = (Inr g0,
      (logger INFO
        ''BOT_GUILD_ID unset or specified guild not found; using bot's first guild: {} (ID: {})''
        [AStr (g_name g0), AInt (g_id g0)]
        (logger DEBUG ''fetching ghostty guild'' [] b))\<lparr>cached_ghostty_guild := Some g0\<rparr>)"
    by (simp add: ghostty_guild_def cached_property_def c ghostty_guild_fget_cases n gs)
  show "fst (ghostty_guild gw b) = Inr g0" by (simp add: e)
  show "logs (snd (ghostty_guild gw b)) =
            logs b @ [LogRecord DEBUG ''fetching ghostty guild'' [] None,
                      LogRecord INFO
                        ''BOT_GUILD_ID unset or specified guild not found; using bot's first guild: {} (ID: {})''
                        [AStr (g_name g0), AInt (g_id g0)] None]"
    by (simp add: e)
next
  assume ne: "guilds gw \<noteq> []"
  show "\<exists>g'. fst (ghostty_guild gw b) = Inr g'"
  proof (cases "cached_ghostty_guild b")
    case (Some g')
    then show ?thesis by (simp add: ghostty_guild_def cached_property_hit)
  next
    case None
    from ne obtain g0 gs where gs: "guilds gw = g0 # gs" by (cases "guilds gw") auto
    show ?thesis
      by (cases "case guild_id (config b) of None \<Rightarrow> None
            | Some i \<Rightarrow> if i = 0 then None else get_guild gw i")
         (simp_all add: ghostty_guild_def cached_property_def None ghostty_guild_fget_cases gs)
  qed
qed

lemma webhook_step:
  assumes g: "fst (ghostty_guild gw b) = Inr g" and q: "\<not> accepts b DEBUG"
  shows "\<exists>b2. webhook_channels_loop gw ((ft, i) # items) chans b =
               (case guild_get_channel g i of
                  None \<Rightarrow>
                    (Inl (TypeError (''failed to find '' @ ft @ '' webhook channel'')), b2)
                | Some c \<Rightarrow>
                    if c_kind c \<noteq> TextChannel then
                      (Inl (TypeError
                         (''expected '' @ ft @ '' webhook channel to be a text channel'')), b2)
                    else webhook_channels_loop gw items (chans(ft \<mapsto> c)) b2)
            \<and> fst (ghostty_guild gw b2) = Inr g \<and> \<not> accepts b2 DEBUG
            \<and> config b2 = config b \<and> cached_webhook_channels b2 = cached_webhook_channels b"
proof -
  let ?b1 = "logger DEBUG ''fetching {feed_type} webhook channel'' [AStr ft] b"
  obtain r b2 where e: "ghostty_guild gw ?b1 = (r, b2)" by (cases "ghostty_guild gw ?b1")
  from ghostty_guild_logger [of gw DEBUG _ _ b] g e have r: "r = Inr g"
    by (metis fst_conv)
  from ghostty_guild_again [of gw ?b1 g b2 gw] e r have a: "fst (ghostty_guild gw b2) = Inr g"
    by simp
  from ghostty_guild_frame [OF e]
  have f: "config b2 = config b" "cached_webhook_channels b2 = cached_webhook_channels b"
    "handler_level b2 = handler_level b" by simp_all
  from f(3) q have q2: "\<not> accepts b2 DEBUG" by (simp add: accepts_def)
  have "webhook_channels_loop gw ((ft, i) # items) chans b =
               (case guild_get_channel g i of
                  None \<Rightarrow>
                    (Inl (TypeError (''failed to find '' @ ft @ '' webhook channel'')), b2)
                | Some c \<Rightarrow>
                    if c_kind c \<noteq> TextChannel then
                      (Inl (TypeError
                         (''expected '' @ ft @ '' webhook channel to be a text channel'')), b2)
                    else webhook_channels_loop gw items (chans(ft \<mapsto> c)) b2)"
    using q e r by (simp add: logger_formatted_webhook isinstance_def split: option.split)
  with a q2 f(1,2) show ?thesis by blast
qed

lemma webhook_loop_debug:
  "accepts b DEBUG \<Longrightarrow> items \<noteq> [] \<Longrightarrow>
   webhook_channels_loop gw items chans b = (Inl (KeyError ''feed_type''), b)"
  by (cases items) (auto simp: logger_formatted_webhook)

lemma webhook_loop_frame:
  "fst (ghostty_guild gw b) = Inr g \<Longrightarrow> \<not> accepts b DEBUG \<Longrightarrow>
   cached_webhook_channels (snd (webhook_channels_loop gw items chans b)) = cached_webhook_channels b"
proof (induction items arbitrary: chans b)
  case Nil
  then show ?case by simp
next
  case (Cons it items)
  obtain ft i where it: "it = (ft, i)" by (cases it)
  from webhook_step [OF Cons.prems, of ft i items chans] obtain b2 where
    s: "webhook_channels_loop gw ((ft, i) # items) chans b =
               (case guild_get_channel g i of
                  None \<Rightarrow>
                    (Inl (TypeError (''failed to find '' @ ft @ '' webhook channel'')), b2)
                | Some c \<Rightarrow>
                    if c_kind c \<noteq> TextChannel then
                      (Inl (TypeError
                         (''expected '' @ ft @ '' webhook channel to be a text channel'')), b2)
                    else webhook_channels_loop gw items (chans(ft \<mapsto> c)) b2)"
    and g2: "fst (ghostty_guild gw b2) = Inr g" and q2: "\<not> accepts b2 DEBUG"
    and c2: "cached_webhook_channels b2 = cached_webhook_channels b"
    by blast
  show ?case
  proof (cases "guild_get_channel g i")
    case None
    with s it c2 show ?thesis by simp
  next
    case (Some c)
    show ?thesis
    proof (cases "c_kind c = TextChannel")
      case True
      then have step: "webhook_channels_loop gw (it # items) chans b
                = webhook_channels_loop gw items (chans(ft \<mapsto> c)) b2"
        using it s Some by simp
      have "cached_webhook_channels (snd (webhook_channels_loop gw items (chans(ft \<mapsto> c)) b2))
              = cached_webhook_channels b2"
        by (rule Cons.IH [OF g2 q2])
      with c2 show ?thesis unfolding step by (simp only:)
    next
      case False
      with s it Some c2 show ?thesis by simp
    qed
  qed
qed

lemma webhook_loop_ok:
  "fst (ghostty_guild gw b) = Inr g \<Longrightarrow> \<not> accepts b DEBUG \<Longrightarrow>
   \<forall>(ft, i)\<in>set items. isinstance (guild_get_channel g i) TextChannel \<Longrightarrow>
   \<exists>m. fst (webhook_channels_loop gw items chans b) = Inr m
      \<and> dom m = dom chans \<union> fst ` set items
      \<and> (distinct (map fst items) \<longrightarrow>
           (\<forall>ft. m ft = (case map_of items ft of None \<Rightarrow> chans ft
                          | Some i \<Rightarrow> guild_get_channel g i)))"
proof (induction items arbitrary: chans b)
  case Nil
  then show ?case by simp
next
  case (Cons it items)
  obtain ft i where it: "it = (ft, i)" by (cases it)
  from webhook_step [OF Cons.prems(1,2), of ft i items chans] obtain b2 where
    s: "webhook_channels_loop gw ((ft, i) # items) chans b =
               (case guild_get_channel g i of
                  None \<Rightarrow>
                    (Inl (TypeError (''failed to find '' @ ft @ '' webhook channel'')), b2)
                | Some c \<Rightarrow>
                    if c_kind c \<noteq> TextChannel then
                      (Inl (TypeError
                         (''expected '' @ ft @ '' webhook channel to be a text channel'')), b2)
                    else webhook_channels_loop gw items (chans(ft \<mapsto> c)) b2)"
    and g2: "fst (ghostty_guild gw b2) = Inr g" and q2: "\<not> accepts b2 DEBUG"
    by blast
  from Cons.prems(3) it obtain c where c: "guild_get_channel g i = Some c" "c_kind c = TextChannel"
    by (auto simp: isinstance_def split: option.splits)
  have rest: "\<forall>(ft, i)\<in>set items. isinstance (guild_get_channel g i) TextChannel"
    using Cons.prems(3) by simp
  from Cons.IH [OF g2 q2 rest, where chans="chans(ft \<mapsto> c)"] obtain m where
    m: "fst (webhook_channels_loop gw items (chans(ft \<mapsto> c)) b2) = Inr m"
       "dom m = dom (chans(ft \<mapsto> c)) \<union> fst ` set items"
       "distinct (map fst items) \<longrightarrow>
           (\<forall>f. m f = (case map_of items f of None \<Rightarrow> (chans(ft \<mapsto> c)) f
                          | Some i \<Rightarrow> guild_get_channel g i))" by blast
  have step: "webhook_channels_loop gw (it # items) chans b
                = webhook_channels_loop gw items (chans(ft \<mapsto> c)) b2"
    using it s c by simp
  have d: "dom m = dom chans \<union> fst ` set (it # items)" using m(2) it by auto
  have v: "\<forall>f. m f = (case map_of (it # items) f of None \<Rightarrow> chans f
                          | Some i \<Rightarrow> guild_get_channel g i)"
    if dist: "distinct (map fst (it # items))"
  proof
    fix f
    from dist it have nf: "map_of items ft = None" and di: "distinct (map fst items)"
      by (auto simp: map_of_eq_None_iff)
    from m(3) di have mf: "m f = (case map_of items f of None \<Rightarrow> (chans(ft \<mapsto> c)) f
                          | Some i \<Rightarrow> guild_get_channel g i)" by simp
    show "m f = (case map_of (it # items) f of None \<Rightarrow> chans f
                          | Some i \<Rightarrow> guild_get_channel g i)"
      using mf nf it c by (cases "f = ft") (simp_all split: option.splits)
  qed
  show ?case using step m(1) d v by auto
qed

lemma webhook_loop_bad:
  "fst (ghostty_guild gw b) = Inr g \<Longrightarrow> \<not> accepts b DEBUG \<Longrightarrow> (ft, i) \<in> set items \<Longrightarrow>
   \<not> isinstance (guild_get_channel g i) TextChannel \<Longrightarrow>
   \<exists>(ft', i')\<in>set items.
      (guild_get_channel g i' = None \<and>
       fst (webhook_channels_loop gw items chans b)
         = Inl (TypeError (''failed to find '' @ ft' @ '' webhook channel'')))
      \<or> (\<exists>c. guild_get_channel g i' = Some c \<and> c_kind c \<noteq> TextChannel \<and>
          fst (webhook_channels_loop gw items chans b)
            = Inl (TypeError (''expected '' @ ft' @ '' webhook channel to be a text channel'')))"
proof (induction items arbitrary: chans b)
  case Nil
  then show ?case by simp
next
  case (Cons it items)
  obtain f j where it: "it = (f, j)" by (cases it)
  from webhook_step [OF Cons.prems(1,2), of f j items chans] obtain b2 where
    s: "webhook_channels_loop gw ((f, j) # items) chans b =
               (case guild_get_channel g j of
                  None \<Rightarrow>
                    (Inl (TypeError (''failed to find '' @ f @ '' webhook channel'')), b2)
                | Some c \<Rightarrow>
                    if c_kind c \<noteq> TextChannel then
                      (Inl (TypeError
                         (''expected '' @ f @ '' webhook channel to be a text channel'')), b2)
                    else webhook_channels_loop gw items (chans(f \<mapsto> c)) b2)"
    and g2: "fst (ghostty_guild gw b2) = Inr g" and q2: "\<not> accepts b2 DEBUG"
    by blast
  show ?case
  proof (cases "guild_get_channel g j")
    case None
    then have "fst (webhook_channels_loop gw (it # items) chans b)
         = Inl (TypeError (''failed to find '' @ f @ '' webhook channel''))"
      using it s by simp
    with None it show ?thesis by auto
  next
    case (Some c)
    show ?thesis
    proof (cases "c_kind c = TextChannel")
      case False
      then have "fst (webhook_channels_loop gw (it # items) chans b)
            = Inl (TypeError (''expected '' @ f @ '' webhook channel to be a text channel''))"
        using it s Some by simp
      with Some False it show ?thesis by auto
    next
      case True
      then have step: "webhook_channels_loop gw (it # items) chans b
                = webhook_channels_loop gw items (chans(f \<mapsto> c)) b2"
        using it s Some by simp
      from True Some Cons.prems(3,4) it have "(ft, i) \<in> set items"
        by (auto simp: isinstance_def)
      from Cons.IH [OF g2 q2 this Cons.prems(4), where chans="chans(f \<mapsto> c)"]
      obtain ft' i' where in': "(ft', i') \<in> set items"
        and D: "(guild_get_channel g i' = None \<and>
            fst (webhook_channels_loop gw items (chans(f \<mapsto> c)) b2)
              = Inl (TypeError (''failed to find '' @ ft' @ '' webhook channel'')))
          \<or> (\<exists>c'. guild_get_channel g i' = Some c' \<and> c_kind c' \<noteq> TextChannel \<and>
            fst (webhook_channels_loop gw items (chans(f \<mapsto> c)) b2)
              = Inl (TypeError (''expected '' @ ft' @ '' webhook channel to be a text channel'')))"
        by blast
      from in' have "(ft', i') \<in> set (it # items)" by simp
      moreover from D have "(guild_get_channel g i' = None \<and>
            fst (webhook_channels_loop gw (it # items) chans b)
              = Inl (TypeError (''failed to find '' @ ft' @ '' webhook channel'')))
          \<or> (\<exists>c'. guild_get_channel g i' = Some c' \<and> c_kind c' \<noteq> TextChannel \<and>
            fst (webhook_channels_loop gw (it # items) chans b)
              = Inl (TypeError (''expected '' @ ft' @ '' webhook channel to be a text channel'')))"
        unfolding step .
      ultimately show ?thesis by blast
    qed
  qed
qed

lemma webhook_channels_first:
  assumes "cached_webhook_channels b = None"
  shows "fst (webhook_channels gw b)
           = fst (webhook_channels_loop gw (webhook_channel_ids (config b)) Map.empty b)"
proof -
  obtain r b' where l: "webhook_channels_loop gw (webhook_channel_ids (config b)) Map.empty b = (r, b')"
    by (cases "webhook_channels_loop gw (webhook_channel_ids (config b)) Map.empty b")
  then show ?thesis using assms
    by (cases r) (simp_all add: webhook_channels_def cached_property_def webhook_channels_fget_def)
qed

lemma webhook_channels_raise_state:
  assumes "cached_webhook_channels b = None" "fst (webhook_channels gw b) = Inl e"
  shows "snd (webhook_channels gw b)
           = snd (webhook_channels_loop gw (webhook_channel_ids (config b)) Map.empty b)"
proof -
  obtain r b' where l: "webhook_channels_loop gw (webhook_channel_ids (config b)) Map.empty b = (r, b')"
    by (cases "webhook_channels_loop gw (webhook_channel_ids (config b)) Map.empty b")
  then show ?thesis using assms
    by (cases r) (simp_all add: webhook_channels_def cached_property_def webhook_channels_fget_def)
qed

lemma webhook_channels_offending:
  assumes c: "cached_webhook_channels b = None" and g: "fst (ghostty_guild gw b) = Inr g"
    and q: "\<not> accepts b DEBUG"
    and i: "(ft, i) \<in> set (webhook_channel_ids (config b))"
    and n: "\<not> isinstance (guild_get_channel g i) TextChannel"
  shows "(\<exists>(ft', i')\<in>set (webhook_channel_ids (config b)).
          (guild_get_channel g i' = None \<and>
           fst (webhook_channels gw b)
             = Inl (TypeError (''failed to find '' @ ft' @ '' webhook channel'')))
          \<or> (\<exists>c. guild_get_channel g i' = Some c \<and> c_kind c \<noteq> TextChannel \<and>
              fst (webhook_channels gw b)
                = Inl (TypeError (''expected '' @ ft' @ '' webhook channel to be a text channel''))))
       \<and> cached_webhook_channels (snd (webhook_channels gw b)) = None"
proof -
  note bad = webhook_loop_bad [OF g q i n, of Map.empty, folded webhook_channels_first [OF c, of gw]]
  then obtain e where e: "fst (webhook_channels gw b) = Inl e" by auto
  from webhook_channels_raise_state [OF c e] webhook_loop_frame [OF g q] c
  have "cached_webhook_channels (snd (webhook_channels gw b)) = None" by simp
  with bad show ?thesis by simp
qed

lemma webhook_channels_complete:
  assumes c: "cached_webhook_channels b = None" and g: "fst (ghostty_guild gw b) = Inr g"
    and r: "fst (webhook_channels gw b) = Inr m"
  shows "(\<forall>(ft', i')\<in>set (webhook_channel_ids (config b)).
            isinstance (guild_get_channel g i') TextChannel)
       \<and> dom m = fst ` set (webhook_channel_ids (config b))
       \<and> (distinct (map fst (webhook_channel_ids (config b))) \<longrightarrow>
            (\<forall>(ft', i')\<in>set (webhook_channel_ids (config b)). m ft' = guild_get_channel g i'))"
proof (cases "accepts b DEBUG")
  case True
  have "webhook_channel_ids (config b) = []"
  proof (rule ccontr)
    assume "webhook_channel_ids (config b) \<noteq> []"
    from webhook_loop_debug [OF True this, of gw Map.empty] r webhook_channels_first [OF c, of gw]
    show False by simp
  qed
  moreover from this r webhook_channels_first [OF c, of gw] have "m = Map.empty" by simp
  ultimately show ?thesis by simp
next
  case q: False
  let ?items = "webhook_channel_ids (config b)"
  have all: "\<forall>(ft', i')\<in>set ?items. isinstance (guild_get_channel g i') TextChannel"
  proof (rule ccontr)
    assume "\<not> (\<forall>(ft', i')\<in>set ?items. isinstance (guild_get_channel g i') TextChannel)"
    then obtain ft i where "(ft, i) \<in> set ?items" "\<not> isinstance (guild_get_channel g i) TextChannel"
      by auto
    from webhook_channels_offending [OF c g q this] r show False by auto
  qed
  from webhook_loop_ok [OF g q all, of Map.empty] obtain m' where
    m': "fst (webhook_channels_loop gw ?items Map.empty b) = Inr m'"
        "dom m' = dom (Map.empty :: string \<rightharpoonup> channel) \<union> fst ` set ?items"
        "distinct (map fst ?items) \<longrightarrow>
           (\<forall>ft. m' ft = (case map_of ?items ft of None \<Rightarrow> None
                          | Some i \<Rightarrow> guild_get_channel g i))" by auto
  from m'(1) r webhook_channels_first [OF c, of gw] have eq: "m' = m" by simp
  have "\<forall>(ft', i')\<in>set ?items. m ft' = guild_get_channel g i'"
    if d: "distinct (map fst ?items)"
  proof -
    { fix ft' i' assume "(ft', i') \<in> set ?items"
      with d have "map_of ?items ft' = Some i'" by simp
      with m'(3) d eq have "m ft' = guild_get_channel g i'" by simp }
    then show ?thesis by auto
  qed
  with all m'(2) eq show ?thesis by simp
qed

lemma webhook_channels_debug:
  assumes "accepts b DEBUG" "cached_webhook_channels b = None"
    "webhook_channel_ids (config b) \<noteq> []"
  shows "webhook_channels gw b = (Inl (KeyError ''feed_type''), b)"
  using assms
  by (simp add: webhook_channels_def cached_property_def webhook_channels_fget_def
      webhook_loop_debug)

lemma log_channel_defect:
  assumes "cached_log_channel b = None"
    and "\<not> isinstance (get_channel gw (log_channel_id (config b))) TextChannel"
  shows "fst (log_channel gw b) = Inl AssertionError
       \<and> cached_log_channel (snd (log_channel gw b)) = None"
  using assms
  by (cases "get_channel gw (log_channel_id (config b))")
     (simp_all add: log_channel_def cached_property_def log_channel_fget_def Let_def)

lemma ex_cfg_voice:
  "guild_id config_voice = Some 1" "log_channel_id config_voice = 21"
  "webhook_channel_ids config_voice = [(''main'', 20), (''discussions'', 21)]"
  by (simp_all add: config_voice_def)

lemma ex_kinds:
  "c_kind ch_feed = TextChannel" "c_kind ch_voice = VoiceChannel" "c_kind ch_log = TextChannel"
  "c_kind ch_help = ForumChannel"
  by (simp_all add: ch_feed_def ch_voice_def ch_log_def ch_help_def)

lemma ex_accepts:
  "accepts (GhosttyBot cfg) DEBUG" "\<not> accepts (bot_quiet cfg) DEBUG"
  by (simp_all add: accepts_def GhosttyBot_def bot_quiet_def)

lemma ex_quiet:
  "config (bot_quiet cfg) = cfg" "cached_ghostty_guild (bot_quiet cfg) = None"
  "cached_webhook_channels (bot_quiet cfg) = None"
  by (simp_all add: bot_quiet_def GhosttyBot_def)

lemma ex_first_guild_quiet:
  "fst (ghostty_guild gateway_ex (bot_quiet config_voice)) = Inr guild_ex"
  "fst (ghostty_guild gateway_ex (bot_quiet config_set)) = Inr guild_ex"
  by (simp_all add: ghostty_guild_def cached_property_def ex_quiet ghostty_guild_fget_cases
      ex_cfg_voice ex_cfg ex_get)

text \<open>
  Claim C7, a defect of the code. The claim has \<^verbatim>\<open>webhook_channels\<close> raise with a
  message that names the offending feed type. The debug call at the head of the loop
  raises first: with a logger that accepts \<^verbatim>\<open>DEBUG\<close>, as it does by default, the first
  access of \<^verbatim>\<open>webhook_channels\<close> with any feed type configured raises
  \<^verbatim>\<open>KeyError('feed_type')\<close>, whatever the channels are, and leaves the bot as it was:
  no channel has been looked at and no feed type is named.
\<close>

theorem webhook_channels_debug_call_raises:
  "accepts b DEBUG \<and> cached_webhook_channels b = None \<and> webhook_channel_ids (config b) \<noteq> [] \<longrightarrow>
     webhook_channels gw b = (Inl (KeyError ''feed_type''), b)"
  by (simp add: webhook_channels_debug)

theorem webhook_channels_debug_call_raises_witness:
  "webhook_channels gateway_ex (GhosttyBot config_voice)
     = (Inl (KeyError ''feed_type''), GhosttyBot config_voice)
   \<and> webhook_channels gateway_ex (GhosttyBot config_set)
     = (Inl (KeyError ''feed_type''), GhosttyBot config_set)
   \<and> guild_get_channel guild_ex 21 = Some ch_voice \<and> c_kind ch_voice = VoiceChannel"
proof -
  have v: "accepts (GhosttyBot config_voice) DEBUG
      \<and> cached_webhook_channels (GhosttyBot config_voice) = None
      \<and> webhook_channel_ids (config (GhosttyBot config_voice)) \<noteq> []"
    by (simp add: ex_accepts ex_init ex_cfg_voice)
  have s: "accepts (GhosttyBot config_set) DEBUG
      \<and> cached_webhook_channels (GhosttyBot config_set) = None
      \<and> webhook_channel_ids (config (GhosttyBot config_set)) \<noteq> []"
    by (simp add: ex_accepts ex_init ex_cfg)
  from webhook_channels_debug_call_raises [where b="GhosttyBot config_voice" and gw=gateway_ex,
         rule_format, OF v]
       webhook_channels_debug_call_raises [where b="GhosttyBot config_set" and gw=gateway_ex,
         rule_format, OF s]
  show ?thesis by (simp add: ex_get ex_kinds)
qed

text \<open>
  What the accessors do apart from that call. With a logger that does not accept
  \<^verbatim>\<open>DEBUG\<close> the debug call returns, and on the first access with the primary guild
  resolved a channel that is absent from the guild or is not a text channel makes
  \<^verbatim>\<open>webhook_channels\<close> raise a \<^verbatim>\<open>TypeError\<close> whose message names an offending feed
  type, with nothing cached. For every logger: when \<^verbatim>\<open>webhook_channels\<close> returns, every
  configured feed type has its entry and all of them are text channels of the primary
  guild, so no partial mapping is ever returned; and \<^verbatim>\<open>log_channel\<close> fails its
  assertion, and caches nothing, when the configured channel is absent or not a text
  channel.
\<close>

lemma resource_defects_apart_from_the_debug_call:
  "(cached_webhook_channels b = None \<and> fst (ghostty_guild gw b) = Inr g
      \<and> \<not> accepts b DEBUG
      \<and> (ft, i) \<in> set (webhook_channel_ids (config b))
      \<and> \<not> isinstance (guild_get_channel g i) TextChannel \<longrightarrow>
        (\<exists>(ft', i')\<in>set (webhook_channel_ids (config b)).
            (guild_get_channel g i' = None \<and>
             fst (webhook_channels gw b)
               = Inl (TypeError (''failed to find '' @ ft' @ '' webhook channel'')))
            \<or> (\<exists>c. guild_get_channel g i' = Some c \<and> c_kind c \<noteq> TextChannel \<and>
                fst (webhook_channels gw b)
                  = Inl (TypeError (''expected '' @ ft' @ '' webhook channel to be a text channel''))))
        \<and> cached_webhook_channels (snd (webhook_channels gw b)) = None)
   \<and> (cached_webhook_channels b = None \<and> fst (ghostty_guild gw b) = Inr g
      \<and> fst (webhook_channels gw b) = Inr m \<longrightarrow>
        (\<forall>(ft', i')\<in>set (webhook_channel_ids (config b)).
            isinstance (guild_get_channel g i') TextChannel)
        \<and> dom m = fst ` set (webhook_channel_ids (config b))
        \<and> (distinct (map fst (webhook_channel_ids (config b))) \<longrightarrow>
             (\<forall>(ft', i')\<in>set (webhook_channel_ids (config b)). m ft' = guild_get_channel g i')))
   \<and> (cached_log_channel b = None
      \<and> \<not> isinstance (get_channel gw (log_channel_id (config b))) TextChannel \<longrightarrow>
        fst (log_channel gw b) = Inl AssertionError
        \<and> cached_log_channel (snd (log_channel gw b)) = None)"
proof (intro conjI)
  show "cached_webhook_channels b = None \<and> fst (ghostty_guild gw b) = Inr g
      \<and> \<not> accepts b DEBUG
      \<and> (ft, i) \<in> set (webhook_channel_ids (config b))
      \<and> \<not> isinstance (guild_get_channel g i) TextChannel \<longrightarrow>
        (\<exists>(ft', i')\<in>set (webhook_channel_ids (config b)).
            (guild_get_channel g i' = None \<and>
             fst (webhook_channels gw b)
               = Inl (TypeError (''failed to find '' @ ft' @ '' webhook channel'')))
            \<or> (\<exists>c. guild_get_channel g i' = Some c \<and> c_kind c \<noteq> TextChannel \<and>
                fst (webhook_channels gw b)
                  = Inl (TypeError (''expected '' @ ft' @ '' webhook channel to be a text channel''))))
        \<and> cached_webhook_channels (snd (webhook_channels gw b)) = None"
  proof
    assume h: "cached_webhook_channels b = None \<and> fst (ghostty_guild gw b) = Inr g
      \<and> \<not> accepts b DEBUG
      \<and> (ft, i) \<in> set (webhook_channel_ids (config b))
      \<and> \<not> isinstance (guild_get_channel g i) TextChannel"
    then have "cached_webhook_channels b = None" "fst (ghostty_guild gw b) = Inr g"
      "\<not> accepts b DEBUG"
      "(ft, i) \<in> set (webhook_channel_ids (config b))"
      "\<not> isinstance (guild_get_channel g i) TextChannel" by simp_all
    then show "(\<exists>(ft', i')\<in>set (webhook_channel_ids (config b)).
            (guild_get_channel g i' = None \<and>
             fst (webhook_channels gw b)
               = Inl (TypeError (''failed to find '' @ ft' @ '' webhook channel'')))
            \<or> (\<exists>c. guild_get_channel g i' = Some c \<and> c_kind c \<noteq> TextChannel \<and>
                fst (webhook_channels gw b)
                  = Inl (TypeError (''expected '' @ ft' @ '' webhook channel to be a text channel''))))
        \<and> cached_webhook_channels (snd (webhook_channels gw b)) = None"
      by (rule webhook_channels_offending)
  qed
next
  show "cached_webhook_channels b = None \<and> fst (ghostty_guild gw b) = Inr g
      \<and> fst (webhook_channels gw b) = Inr m \<longrightarrow>
        (\<forall>(ft', i')\<in>set (webhook_channel_ids (config b)).
            isinstance (guild_get_channel g i') TextChannel)
        \<and> dom m = fst ` set (webhook_channel_ids (config b))
        \<and> (distinct (map fst (webhook_channel_ids (config b))) \<longrightarrow>
             (\<forall>(ft', i')\<in>set (webhook_channel_ids (config b)). m ft' = guild_get_channel g i'))"
  proof
    assume "cached_webhook_channels b = None \<and> fst (ghostty_guild gw b) = Inr g
      \<and> fst (webhook_channels gw b) = Inr m"
    then have "cached_webhook_channels b = None" "fst (ghostty_guild gw b) = Inr g"
      "fst (webhook_channels gw b) = Inr m" by simp_all
    then show "(\<forall>(ft', i')\<in>set (webhook_channel_ids (config b)).
            isinstance (guild_get_channel g i') TextChannel)
        \<and> dom m = fst ` set (webhook_channel_ids (config b))
        \<and> (distinct (map fst (webhook_channel_ids (config b))) \<longrightarrow>
             (\<forall>(ft', i')\<in>set (webhook_channel_ids (config b)). m ft' = guild_get_channel g i'))"
      by (rule webhook_channels_complete)
  qed
next
  show "cached_log_channel b = None
      \<and> \<not> isinstance (get_channel gw (log_channel_id (config b))) TextChannel \<longrightarrow>
        fst (log_channel gw b) = Inl AssertionError
        \<and> cached_log_channel (snd (log_channel gw b)) = None"
    using log_channel_defect [of b gw] by simp
qed

lemma ex_webhook_quiet:
  "fst (webhook_channels gateway_ex (bot_quiet config_set)) = Inr [''main'' \<mapsto> ch_feed]"
  "fst (webhook_channels gateway_ex (bot_quiet config_voice))
     = Inl (TypeError ''expected discussions webhook channel to be a text channel'')"
  "fst (log_channel gateway_ex (GhosttyBot config_voice)) = Inl AssertionError"
proof -
  show "fst (webhook_channels gateway_ex (bot_quiet config_set)) = Inr [''main'' \<mapsto> ch_feed]"
    using webhook_step [OF ex_first_guild_quiet(2) ex_accepts(2), of "''main''" 20 "[]" Map.empty]
    by (auto simp: webhook_channels_first ex_quiet ex_cfg ex_get ex_kinds)
  show "fst (webhook_channels gateway_ex (bot_quiet config_voice))
     = Inl (TypeError ''expected discussions webhook channel to be a text channel'')"
    using resource_defects_apart_from_the_debug_call [where b="bot_quiet config_voice"
        and gw=gateway_ex and g=guild_ex and ft="''discussions''" and i=21, THEN conjunct1]
    by (auto simp: ex_quiet ex_accepts ex_first_guild_quiet ex_cfg_voice ex_get isinstance_def
        ex_kinds)
  show "fst (log_channel gateway_ex (GhosttyBot config_voice)) = Inl AssertionError"
    using log_channel_defect [of "GhosttyBot config_voice" gateway_ex]
    by (simp add: ex_init ex_cfg_voice ex_get isinstance_def ex_kinds)
qed

theorem ghostty_guild_resolution_witness:
  "fst (ghostty_guild gateway_ex (GhosttyBot config_set)) = Inr guild_ex
   \<and> fst (ghostty_guild gateway_ex (GhosttyBot config_ex)) = Inr guild_other
   \<and> logs (snd (ghostty_guild gateway_ex (GhosttyBot config_ex))) =
        [LogRecord DEBUG ''fetching ghostty guild'' [] None,
         LogRecord INFO
           ''BOT_GUILD_ID unset or specified guild not found; using bot's first guild: {} (ID: {})''
           [AStr (g_name guild_other), AInt (g_id guild_other)] None]
   \<and> (\<exists>g'. fst (ghostty_guild gateway_ex (GhosttyBot config_ex)) = Inr g')"
proof -
  have a: "cached_ghostty_guild (GhosttyBot config_set) = None
      \<and> guild_id (config (GhosttyBot config_set)) = Some 1 \<and> (1::int) \<noteq> 0
      \<and> get_guild gateway_ex 1 = Some guild_ex"
    by (simp add: ex_init ex_cfg ex_get)
  have b: "cached_ghostty_guild (GhosttyBot config_ex) = None
      \<and> (guild_id (config (GhosttyBot config_ex)) = None
          \<or> guild_id (config (GhosttyBot config_ex)) = Some 0
          \<or> (\<exists>j. guild_id (config (GhosttyBot config_ex)) = Some j \<and> get_guild gateway_ex j = None))
      \<and> guilds gateway_ex = guild_other # [guild_ex]"
    by (simp add: ex_init config_ex_def gateway_ex_def)
  have c: "guilds gateway_ex \<noteq> []" by (simp add: gateway_ex_def)
  note A = ghostty_guild_resolution [where b="GhosttyBot config_set" and gw=gateway_ex and i=1
      and g=guild_ex, THEN conjunct1, rule_format, OF a]
  note B = ghostty_guild_resolution [where b="GhosttyBot config_ex" and gw=gateway_ex
      and ?g0.0=guild_other and gs="[guild_ex]", THEN conjunct2, THEN conjunct1, rule_format, OF b]
  note C = ghostty_guild_resolution [where b="GhosttyBot config_ex" and gw=gateway_ex,
      THEN conjunct2, THEN conjunct2, rule_format, OF c]
  from A B C show ?thesis by (simp add: ex_init)
qed

theorem lazy_accessors_compute_once_witness:
  "ghostty_guild gateway_gone (snd (ghostty_guild gateway_ex (GhosttyBot config_set)))
     = (Inr guild_ex, snd (ghostty_guild gateway_ex (GhosttyBot config_set)))
   \<and> log_channel gateway_gone (snd (log_channel gateway_ex (GhosttyBot config_set)))
     = (Inr ch_log, snd (log_channel gateway_ex (GhosttyBot config_set)))
   \<and> help_channel gateway_gone (snd (help_channel gateway_ex (GhosttyBot config_set)))
     = (Inr ch_help, snd (help_channel gateway_ex (GhosttyBot config_set)))
   \<and> webhook_channels gateway_gone (snd (webhook_channels gateway_ex (bot_quiet config_set)))
     = (Inr [''main'' \<mapsto> ch_feed], snd (webhook_channels gateway_ex (bot_quiet config_set)))"
proof -
  let ?b = "GhosttyBot config_set"
  let ?q = "bot_quiet config_set"
  have l: "fst (log_channel gateway_ex ?b) = Inr ch_log"
    by (simp add: log_channel_def cached_property_def ex_init log_channel_fget_def Let_def
        ex_cfg ex_get isinstance_def ex_kinds)
  have p: "fst (help_channel gateway_ex ?b) = Inr ch_help"
    by (simp add: help_channel_def cached_property_def ex_init help_channel_fget_def Let_def
        ex_cfg ex_get isinstance_def ex_kinds)
  have g: "ghostty_guild gateway_ex ?b = (Inr guild_ex, snd (ghostty_guild gateway_ex ?b))"
    using ex_first_guild by (simp add: prod_eq_iff)
  have c: "log_channel gateway_ex ?b = (Inr ch_log, snd (log_channel gateway_ex ?b))"
    using l by (simp add: prod_eq_iff)
  have h: "help_channel gateway_ex ?b = (Inr ch_help, snd (help_channel gateway_ex ?b))"
    using p by (simp add: prod_eq_iff)
  have w: "webhook_channels gateway_ex ?q
             = (Inr [''main'' \<mapsto> ch_feed], snd (webhook_channels gateway_ex ?q))"
    using ex_webhook_quiet(1) by (simp add: prod_eq_iff)
  note T = lazy_accessors_compute_once [where gw=gateway_ex and b="?b" and gw'=gateway_gone]
  note Q = lazy_accessors_compute_once [where gw=gateway_ex and b="?q" and gw'=gateway_gone]
  note G1 = T [where g=guild_ex and b'="snd (ghostty_guild gateway_ex ?b)",
      THEN conjunct1, rule_format, OF g]
  note G2 = T [where g=guild_ex and ?b2.0="snd (ghostty_guild gateway_ex ?b)",
      THEN conjunct2, THEN conjunct1, rule_format, OF G1]
  note C1 = T [where c=ch_log and b'="snd (log_channel gateway_ex ?b)",
      THEN conjunct2, THEN conjunct2, THEN conjunct1, rule_format, OF c]
  note C2 = T [where c=ch_log and ?b2.0="snd (log_channel gateway_ex ?b)",
      THEN conjunct2, THEN conjunct2, THEN conjunct2, THEN conjunct1, rule_format, OF C1]
  note H1 = T [where h=ch_help and b'="snd (help_channel gateway_ex ?b)",
      THEN conjunct2, THEN conjunct2, THEN conjunct2, THEN conjunct2, THEN conjunct1,
      rule_format, OF h]
  note H2 = T [where h=ch_help and ?b2.0="snd (help_channel gateway_ex ?b)",
      THEN conjunct2, THEN conjunct2, THEN conjunct2, THEN conjunct2, THEN conjunct2,
      THEN conjunct1, rule_format, OF H1]
  note W1 = Q [where m="[''main'' \<mapsto> ch_feed]" and b'="snd (webhook_channels gateway_ex ?q)",
      THEN conjunct2, THEN conjunct2, THEN conjunct2, THEN conjunct2, THEN conjunct2,
      THEN conjunct2, THEN conjunct1, rule_format, OF w]
  note W2 = Q [where m="[''main'' \<mapsto> ch_feed]" and ?b2.0="snd (webhook_channels gateway_ex ?q)",
      THEN conjunct2, THEN conjunct2, THEN conjunct2, THEN conjunct2, THEN conjunct2,
      THEN conjunct2, THEN conjunct2, rule_format, OF W1]
  from G2 C2 H2 W2 show ?thesis by (intro conjI)
qed

section \<open>The message gate: what a message triggers\<close>

text \<open>
  Claim C5. A message whose author is a bot account, or whose type is outside the regular
  set, leaves the bot as it was: no filter check, no reply, no event. A message that passed
  that gate, is a direct message and has the content \<open>ping\<close> gets the reply \<open>pong\<close> and
  nothing else: the filter is not reached. Any other message that passed the gate yields
  exactly one event \<open>message_filter_passed\<close> carrying the message, when the filter cog
  is absent (no check is made) or its check reports no rejection.
\<close>

theorem message_gate:
  "(a_bot (m_author msg) \<or> m_type msg \<notin> regular \<longrightarrow> on_message pr regular msg b = b)
   \<and> (\<not> a_bot (m_author msg) \<and> m_type msg \<in> regular
        \<and> m_guild msg = None \<and> m_content msg = ''ping'' \<longrightarrow>
          effects (on_message pr regular msg b) = effects b @ [TryDm (m_author msg) ''pong''])
   \<and> (\<not> a_bot (m_author msg) \<and> m_type msg \<in> regular
        \<and> (m_guild msg \<noteq> None \<or> m_content msg \<noteq> ''ping'')
        \<and> cogs b ''MessageFilter'' = None \<longrightarrow>
          effects (on_message pr regular msg b)
            = effects b @ [Dispatch ''message_filter_passed'' msg])
   \<and> (\<forall>f. \<not> a_bot (m_author msg) \<and> m_type msg \<in> regular
        \<and> (m_guild msg \<noteq> None \<or> m_content msg \<noteq> ''ping'')
        \<and> cogs b ''MessageFilter'' = Some f \<and> \<not> check f msg \<longrightarrow>
          effects (on_message pr regular msg b)
            = effects b @ [FilterCheck msg, Dispatch ''message_filter_passed'' msg])"
  by (auto simp: on_message_def try_dm_def dispatch_def fails_message_filters_def logger_def)

theorem message_gate_witness:
  "on_message printers_ex regular_ex msg_robot bot_ex = bot_ex
   \<and> effects (on_message printers_ex regular_ex msg_ping bot_ex) = [TryDm user_ex ''pong'']
   \<and> effects (on_message printers_ex regular_ex msg_guild bot_ex)
        = [Dispatch ''message_filter_passed'' msg_guild]
   \<and> effects (on_message printers_ex regular_ex msg_guild bot_filtering)
        = [FilterCheck msg_guild, Dispatch ''message_filter_passed'' msg_guild]"
proof -
  have r: "a_bot (m_author msg_robot) \<or> m_type msg_robot \<notin> regular_ex"
    by (simp add: msg_robot_def robot_ex_def)
  have p: "\<not> a_bot (m_author msg_ping) \<and> m_type msg_ping \<in> regular_ex
        \<and> m_guild msg_ping = None \<and> m_content msg_ping = ''ping''"
    by (simp add: msg_ping_def user_ex_def regular_ex_def)
  have g: "\<not> a_bot (m_author msg_guild) \<and> m_type msg_guild \<in> regular_ex
        \<and> (m_guild msg_guild \<noteq> None \<or> m_content msg_guild \<noteq> ''ping'')
        \<and> cogs bot_ex ''MessageFilter'' = None"
    by (simp add: msg_guild_def user_ex_def regular_ex_def bot_ex_def GhosttyBot_def)
  have f: "\<not> a_bot (m_author msg_guild) \<and> m_type msg_guild \<in> regular_ex
        \<and> (m_guild msg_guild \<noteq> None \<or> m_content msg_guild \<noteq> ''ping'')
        \<and> cogs bot_filtering ''MessageFilter'' = Some (Cog accept_all)
        \<and> \<not> check (Cog accept_all) msg_guild"
    by (simp add: msg_guild_def user_ex_def regular_ex_def bot_filtering_def accept_all_def)
  have e: "effects bot_ex = []" "effects bot_filtering = []" "m_author msg_ping = user_ex"
    by (simp_all add: bot_ex_def bot_filtering_def GhosttyBot_def msg_ping_def)
  note R = message_gate [where msg=msg_robot and regular=regular_ex and pr=printers_ex and b=bot_ex,
      THEN conjunct1, rule_format, OF r]
  note P = message_gate [where msg=msg_ping and regular=regular_ex and pr=printers_ex and b=bot_ex,
      THEN conjunct2, THEN conjunct1, rule_format, OF p]
  note G = message_gate [where msg=msg_guild and regular=regular_ex and pr=printers_ex and b=bot_ex,
      THEN conjunct2, THEN conjunct2, THEN conjunct1, rule_format, OF g]
  note F = message_gate [where msg=msg_guild and regular=regular_ex and pr=printers_ex
      and b=bot_filtering,
      THEN conjunct2, THEN conjunct2, THEN conjunct2, rule_format, OF f]
  from R P G F e show ?thesis by simp
qed

section \<open>The emoji cache after loading\<close>

lemma store_emojis_other:
  "n \<notin> set (map e_name es) \<or> n \<notin> set valid \<Longrightarrow> store_emojis valid es d n = d n"
  by (induction es arbitrary: d) auto

lemma store_emojis_found:
  "n \<in> set valid \<Longrightarrow> n \<in> set (map e_name es) \<Longrightarrow>
   \<exists>e\<in>set es. e_name e = n \<and> store_emojis valid es d n = Some (EmojiObj e)"
proof (induction es arbitrary: d)
  case Nil
  then show ?case by simp
next
  case (Cons x es)
  show ?case
  proof (cases "n \<in> set (map e_name es)")
    case True
    from Cons.IH [OF Cons.prems(1) True] show ?thesis by auto
  next
    case False
    with Cons.prems have x: "e_name x = n" by auto
    from False have "store_emojis valid es (d(e_name x \<mapsto> EmojiObj x)) n = (d(e_name x \<mapsto> EmojiObj x)) n"
      by (intro store_emojis_other) simp
    with x Cons.prems(1) show ?thesis by auto
  qed
qed

lemma store_emojis_keeps:
  "d n \<noteq> None \<Longrightarrow> store_emojis valid es d n \<noteq> None"
  by (induction es arbitrary: d) auto

lemma fill_missing_apply:
  "fill_missing ms d n = (if n \<in> set ms then Some (StrObj placeholder) else d n)"
  by (induction ms arbitrary: d) auto

lemma arrange_empty [simp]: "arrange order [] = []"
  by (simp add: arrange_def)

lemma arrange_Nil: "(arrange order names = []) = (names = [])"
  using arrange_set [of order names] by (metis set_empty)

lemma missing_labels_set:
  "set (missing_labels valid es) = set valid - set (map e_name es)"
  "distinct (missing_labels valid es)"
  by (auto simp: missing_labels_def)

lemma missing_fresh:
  "filter (\<lambda>n. store_emojis valid es Map.empty n = None) (remdups valid) = missing_labels valid es"
  unfolding missing_labels_def
proof (rule filter_cong [OF refl])
  fix n assume "n \<in> set (remdups valid)"
  then have v: "n \<in> set valid" by simp
  show "(store_emojis valid es Map.empty n = None) = (n \<notin> set (map e_name es))"
  proof (cases "n \<in> set (map e_name es)")
    case True
    from store_emojis_found [OF v True, of Map.empty] True show ?thesis by auto
  next
    case False
    then show ?thesis by (simp add: store_emojis_other)
  qed
qed

lemma log_channel_frame:
  assumes "log_channel gw b = (r, b')"
  shows "config b' = config b \<and> priv_ghostty_emojis b' = priv_ghostty_emojis b
       \<and> effects b' = effects b \<and> cached_ghostty_guild b' = cached_ghostty_guild b"
proof (cases "cached_log_channel b")
  case (Some c)
  with assms show ?thesis by (simp add: log_channel_def cached_property_def)
next
  case None
  show ?thesis
  proof (cases "get_channel gw (log_channel_id (config b))")
    case n: None
    with assms None show ?thesis
      by (auto simp: log_channel_def cached_property_def log_channel_fget_def Let_def)
  next
    case (Some c)
    with assms None show ?thesis
      by (cases "isinstance (Some c) TextChannel")
         (auto simp: log_channel_def cached_property_def log_channel_fget_def Let_def)
  qed
qed

lemma log_channel_depends:
  assumes "cached_log_channel b2 = cached_log_channel b" "config b2 = config b"
  shows "fst (log_channel gw b2) = fst (log_channel gw b)"
proof (cases "cached_log_channel b")
  case (Some c)
  with assms show ?thesis by (simp add: log_channel_def cached_property_def)
next
  case None
  show ?thesis
  proof (cases "get_channel gw (log_channel_id (config b))")
    case n: None
    with assms None show ?thesis
      by (simp add: log_channel_def cached_property_def log_channel_fget_def Let_def)
  next
    case (Some c)
    with assms None show ?thesis
      by (cases "isinstance (Some c) TextChannel")
         (simp_all add: log_channel_def cached_property_def log_channel_fget_def Let_def)
  qed
qed

lemma load_emojis_for_result:
  assumes l: "load_emojis_for valid order gw b = (Inr (), b')"
  shows "\<exists>g. fst (ghostty_guild gw b) = Inr g \<and>
    priv_ghostty_emojis b' =
      fill_missing
        (arrange order
           (filter (\<lambda>n. store_emojis valid (g_emojis g) (priv_ghostty_emojis b) n = None) (remdups valid)))
        (store_emojis valid (g_emojis g) (priv_ghostty_emojis b)) \<and>
    (filter (\<lambda>n. store_emojis valid (g_emojis g) (priv_ghostty_emojis b) n = None) (remdups valid) = []
       \<longrightarrow> effects b' = effects b) \<and>
    (filter (\<lambda>n. store_emojis valid (g_emojis g) (priv_ghostty_emojis b) n = None) (remdups valid) \<noteq> []
       \<longrightarrow> (\<exists>ch. fst (log_channel gw b) = Inr ch \<and>
             effects b' = effects b @
               [Sent (c_id ch) (''Failed to load the following emojis: '' @ join '', ''
                  (arrange order
                     (filter (\<lambda>n. store_emojis valid (g_emojis g) (priv_ghostty_emojis b) n = None)
                        (remdups valid))))]))"
proof -
  obtain r b1 where g1: "ghostty_guild gw b = (r, b1)" by (cases "ghostty_guild gw b")
  from l g1 obtain g where r: "r = Inr g" by (cases r) (simp_all add: load_emojis_for_def)
  note fr = ghostty_guild_frame [OF g1]
  let ?d = "store_emojis valid (g_emojis g) (priv_ghostty_emojis b)"
  let ?found = "filter (\<lambda>n. ?d n = None) (remdups valid)"
  let ?missing = "arrange order ?found"
  let ?b2 = "b1\<lparr>priv_ghostty_emojis := ?d\<rparr>"
  have fg: "fst (ghostty_guild gw b) = Inr g" using g1 r by simp
  show ?thesis
  proof (cases "?found = []")
    case True
    with l g1 r fr have "b' = ?b2" by (simp add: load_emojis_for_def Let_def arrange_Nil)
    with True fr fg show ?thesis by (simp add: arrange_Nil)
  next
    case nonempty: False
    then have False: "?missing \<noteq> []" by (simp add: arrange_Nil)
    obtain r3 b3 where lc: "log_channel gw ?b2 = (r3, b3)" by (cases "log_channel gw ?b2")
    from l g1 r fr False lc obtain ch where r3: "r3 = Inr ch"
      by (cases r3) (simp_all add: load_emojis_for_def Let_def)
    note fr3 = log_channel_frame [OF lc]
    from l g1 r fr False lc r3 have se: "send_error gw = None"
      by (cases "send_error gw") (simp_all add: load_emojis_for_def Let_def send_def)
    from l g1 r fr False lc r3 se
    have b': "b' = (b3\<lparr>effects := effects b3 @
              [Sent (c_id ch) (''Failed to load the following emojis: '' @ join '', '' ?missing)]\<rparr>)
              \<lparr>priv_ghostty_emojis := fill_missing ?missing (priv_ghostty_emojis b3)\<rparr>"
      by (simp add: load_emojis_for_def Let_def send_def)
    have "fst (log_channel gw ?b2) = fst (log_channel gw b)"
      by (rule log_channel_depends) (simp_all add: fr)
    with lc r3 have lg: "fst (log_channel gw b) = Inr ch" by simp
    from b' fr3 fr have "priv_ghostty_emojis b' = fill_missing ?missing ?d"
      and "effects b' = effects b @
              [Sent (c_id ch) (''Failed to load the following emojis: '' @ join '', '' ?missing)]"
      by simp_all
    with nonempty fg lg show ?thesis by auto
  qed
qed

lemma load_emojis_for_returns:
  assumes g: "fst (ghostty_guild gw b) = Inr g" and c: "fst (log_channel gw b) = Inr ch"
    and s: "send_error gw = None"
  shows "fst (load_emojis_for valid order gw b) = Inr ()"
proof -
  obtain b1 where g1: "ghostty_guild gw b = (Inr g, b1)" using g by (cases "ghostty_guild gw b") auto
  note fr = ghostty_guild_frame [OF g1]
  let ?d = "store_emojis valid (g_emojis g) (priv_ghostty_emojis b)"
  let ?missing = "arrange order (filter (\<lambda>n. ?d n = None) (remdups valid))"
  let ?b2 = "b1\<lparr>priv_ghostty_emojis := ?d\<rparr>"
  show ?thesis
  proof (cases "?missing = []")
    case True
    with g1 fr show ?thesis by (simp add: load_emojis_for_def Let_def)
  next
    case False
    have "fst (log_channel gw ?b2) = fst (log_channel gw b)"
      by (rule log_channel_depends) (simp_all add: fr)
    with c obtain b3 where lc: "log_channel gw ?b2 = (Inr ch, b3)"
      by (cases "log_channel gw ?b2") auto
    with g1 fr False s show ?thesis by (simp add: load_emojis_for_def Let_def send_def)
  qed
qed

lemma load_emojis_for_total:
  assumes l: "load_emojis_for valid order gw b = (Inr (), b')" and n: "n \<in> set valid"
  shows "priv_ghostty_emojis b' n \<noteq> None"
  using load_emojis_for_result [OF l]
proof (elim exE conjE)
  fix g
  assume p: "priv_ghostty_emojis b' =
      fill_missing
        (arrange order
           (filter (\<lambda>n. store_emojis valid (g_emojis g) (priv_ghostty_emojis b) n = None) (remdups valid)))
        (store_emojis valid (g_emojis g) (priv_ghostty_emojis b))"
  show ?thesis
    using n by (cases "store_emojis valid (g_emojis g) (priv_ghostty_emojis b) n")
      (simp_all add: p fill_missing_apply)
qed

lemma load_emojis_for_fresh:
  assumes l: "load_emojis_for valid order gw b = (Inr (), b')"
    and e: "priv_ghostty_emojis b = Map.empty"
  shows "\<exists>g. fst (ghostty_guild gw b) = Inr g
    \<and> (\<forall>n\<in>set valid. n \<in> set (map e_name (g_emojis g)) \<longrightarrow>
          (\<exists>x\<in>set (g_emojis g). e_name x = n \<and> priv_ghostty_emojis b' n = Some (EmojiObj x)))
    \<and> (\<forall>n\<in>set valid. n \<notin> set (map e_name (g_emojis g)) \<longrightarrow>
          priv_ghostty_emojis b' n = Some (StrObj placeholder))
    \<and> (missing_labels valid (g_emojis g) = [] \<longrightarrow> effects b' = effects b)
    \<and> (missing_labels valid (g_emojis g) \<noteq> [] \<longrightarrow>
          (\<exists>ch. fst (log_channel gw b) = Inr ch \<and>
             effects b' = effects b @
               [Sent (c_id ch) (''Failed to load the following emojis: ''
                  @ join '', '' (arrange order (missing_labels valid (g_emojis g))))]))"
  using load_emojis_for_result [OF l, unfolded e missing_fresh]
proof (elim exE conjE)
  fix g
  assume g: "fst (ghostty_guild gw b) = Inr g"
    and p: "priv_ghostty_emojis b' =
      fill_missing (arrange order (missing_labels valid (g_emojis g)))
        (store_emojis valid (g_emojis g) Map.empty)"
    and m0: "missing_labels valid (g_emojis g) = [] \<longrightarrow> effects b' = effects b"
    and m1: "missing_labels valid (g_emojis g) \<noteq> [] \<longrightarrow>
          (\<exists>ch. fst (log_channel gw b) = Inr ch \<and>
             effects b' = effects b @
               [Sent (c_id ch) (''Failed to load the following emojis: ''
                  @ join '', '' (arrange order (missing_labels valid (g_emojis g))))])"
  have a: "\<exists>x\<in>set (g_emojis g). e_name x = n \<and> priv_ghostty_emojis b' n = Some (EmojiObj x)"
    if "n \<in> set valid" "n \<in> set (map e_name (g_emojis g))" for n
    using store_emojis_found [OF that, of Map.empty] that
    by (simp add: p fill_missing_apply missing_labels_set)
  have c: "priv_ghostty_emojis b' n = Some (StrObj placeholder)"
    if "n \<in> set valid" "n \<notin> set (map e_name (g_emojis g))" for n
    using that by (simp add: p fill_missing_apply missing_labels_set)
  show ?thesis
  proof (intro exI [of _ g] conjI ballI impI)
    show "fst (ghostty_guild gw b) = Inr g" by (rule g)
    show "\<exists>x\<in>set (g_emojis g). e_name x = n \<and> priv_ghostty_emojis b' n = Some (EmojiObj x)"
      if "n \<in> set valid" "n \<in> set (map e_name (g_emojis g))" for n
      using that by (rule a)
    show "priv_ghostty_emojis b' n = Some (StrObj placeholder)"
      if "n \<in> set valid" "n \<notin> set (map e_name (g_emojis g))" for n
      using that by (rule c)
    show "effects b' = effects b" if "missing_labels valid (g_emojis g) = []"
      using m0 that by simp
    show "\<exists>ch. fst (log_channel gw b) = Inr ch \<and>
             effects b' = effects b @
               [Sent (c_id ch) (''Failed to load the following emojis: ''
                  @ join '', '' (arrange order (missing_labels valid (g_emojis g))))]"
      if "missing_labels valid (g_emojis g) \<noteq> []"
      using m1 that by simp
  qed
qed

text \<open>
  Claim C4. For every list of expected labels and every guild: when \<^verbatim>\<open>load_emojis\<close> starts
  from the empty dict of a new bot and returns, each expected label that is the name of an
  emoji of the primary guild is mapped to such an emoji, every other expected label is
  mapped to the placeholder, and the effects grow by exactly one message to the log channel
  when a label is missing (none otherwise); the message lists the missing labels, each
  once, in whatever order the process iterates the set. It returns whenever the primary
  guild and the log channel resolve and the send is delivered. The source's
  \<^verbatim>\<open>load_emojis\<close> is the instance for \<open>EmojiName\<close>.
\<close>

theorem load_emojis_cache_and_warning:
  "(priv_ghostty_emojis b = Map.empty \<and> load_emojis_for valid order gw b = (Inr (), b') \<longrightarrow>
      (\<exists>g. fst (ghostty_guild gw b) = Inr g
        \<and> (\<forall>n\<in>set valid. n \<in> set (map e_name (g_emojis g)) \<longrightarrow>
              (\<exists>x\<in>set (g_emojis g). e_name x = n \<and> ghostty_emojis b' n = Some (EmojiObj x)))
        \<and> (\<forall>n\<in>set valid. n \<notin> set (map e_name (g_emojis g)) \<longrightarrow>
              ghostty_emojis b' n = Some (StrObj placeholder))
        \<and> (missing_labels valid (g_emojis g) = [] \<longrightarrow> effects b' = effects b)
        \<and> (missing_labels valid (g_emojis g) \<noteq> [] \<longrightarrow>
              (\<exists>ch. fst (log_channel gw b) = Inr ch \<and>
                 effects b' = effects b @
                   [Sent (c_id ch) (''Failed to load the following emojis: ''
                      @ join '', '' (arrange order (missing_labels valid (g_emojis g))))]))))
   \<and> set (missing_labels valid es) = set valid - set (map e_name es)
   \<and> distinct (missing_labels valid es)
   \<and> set (arrange order (missing_labels valid es)) = set (missing_labels valid es)
   \<and> distinct (arrange order (missing_labels valid es))
   \<and> (fst (ghostty_guild gw b) = Inr g0 \<and> fst (log_channel gw b) = Inr ch0
        \<and> send_error gw = None \<longrightarrow> fst (load_emojis_for valid order gw b) = Inr ())
   \<and> load_emojis order gw b = load_emojis_for EmojiName order gw b"
proof (intro conjI impI)
  assume "priv_ghostty_emojis b = Map.empty \<and> load_emojis_for valid order gw b = (Inr (), b')"
  then have "load_emojis_for valid order gw b = (Inr (), b')" "priv_ghostty_emojis b = Map.empty"
    by simp_all
  from load_emojis_for_fresh [OF this]
  show "\<exists>g. fst (ghostty_guild gw b) = Inr g
        \<and> (\<forall>n\<in>set valid. n \<in> set (map e_name (g_emojis g)) \<longrightarrow>
              (\<exists>x\<in>set (g_emojis g). e_name x = n \<and> ghostty_emojis b' n = Some (EmojiObj x)))
        \<and> (\<forall>n\<in>set valid. n \<notin> set (map e_name (g_emojis g)) \<longrightarrow>
              ghostty_emojis b' n = Some (StrObj placeholder))
        \<and> (missing_labels valid (g_emojis g) = [] \<longrightarrow> effects b' = effects b)
        \<and> (missing_labels valid (g_emojis g) \<noteq> [] \<longrightarrow>
              (\<exists>ch. fst (log_channel gw b) = Inr ch \<and>
                 effects b' = effects b @
                   [Sent (c_id ch) (''Failed to load the following emojis: ''
                      @ join '', '' (arrange order (missing_labels valid (g_emojis g))))]))"
    unfolding ghostty_emojis_def .
next
  show "set (missing_labels valid es) = set valid - set (map e_name es)"
    by (rule missing_labels_set)
  show "distinct (missing_labels valid es)" by (rule missing_labels_set)
  show "set (arrange order (missing_labels valid es)) = set (missing_labels valid es)"
    by simp
  show "distinct (arrange order (missing_labels valid es))" by simp
next
  assume "fst (ghostty_guild gw b) = Inr g0 \<and> fst (log_channel gw b) = Inr ch0
        \<and> send_error gw = None"
  then have "fst (ghostty_guild gw b) = Inr g0" "fst (log_channel gw b) = Inr ch0"
    "send_error gw = None" by simp_all
  then show "fst (load_emojis_for valid order gw b) = Inr ()" by (rule load_emojis_for_returns)
next
  show "load_emojis order gw b = load_emojis_for EmojiName order gw b" by (simp add: load_emojis_def)
qed

text \<open>
  Claim C10. After \<^verbatim>\<open>load_emojis\<close> has returned, every one of the 12 expected labels has
  an entry in the read-only view, whatever the dict held before and in whatever order the
  set of missing labels is iterated. Starting from the empty
  dict, the entry is an emoji of the guild with that name when there is one, and otherwise
  the placeholder, a string (the bytes of U+2753) and not an emoji object.
\<close>

theorem emoji_mapping_total:
  "(load_emojis order gw b = (Inr (), b') \<longrightarrow> (\<forall>n\<in>set EmojiName. ghostty_emojis b' n \<noteq> None))
   \<and> (priv_ghostty_emojis b = Map.empty \<and> load_emojis order gw b = (Inr (), b') \<longrightarrow>
        (\<exists>g. fst (ghostty_guild gw b) = Inr g
          \<and> (\<forall>n\<in>set EmojiName. n \<in> set (map e_name (g_emojis g)) \<longrightarrow>
                (\<exists>x\<in>set (g_emojis g). e_name x = n \<and> ghostty_emojis b' n = Some (EmojiObj x)))
          \<and> (\<forall>n\<in>set EmojiName. n \<notin> set (map e_name (g_emojis g)) \<longrightarrow>
                ghostty_emojis b' n = Some (StrObj placeholder))))
   \<and> length EmojiName = 12 \<and> distinct EmojiName
   \<and> placeholder = [CHR 0xE2, CHR 0x9D, CHR 0x93]
   \<and> (\<forall>x. StrObj placeholder \<noteq> EmojiObj x)"
proof (intro conjI impI ballI allI)
  fix n assume "load_emojis order gw b = (Inr (), b')" "n \<in> set EmojiName"
  then show "ghostty_emojis b' n \<noteq> None"
    unfolding load_emojis_def ghostty_emojis_def by (rule load_emojis_for_total)
next
  assume "priv_ghostty_emojis b = Map.empty \<and> load_emojis order gw b = (Inr (), b')"
  then have "load_emojis_for EmojiName order gw b = (Inr (), b')" "priv_ghostty_emojis b = Map.empty"
    by (simp_all add: load_emojis_def)
  from load_emojis_for_fresh [OF this, folded ghostty_emojis_def]
  show "\<exists>g. fst (ghostty_guild gw b) = Inr g
          \<and> (\<forall>n\<in>set EmojiName. n \<in> set (map e_name (g_emojis g)) \<longrightarrow>
                (\<exists>x\<in>set (g_emojis g). e_name x = n \<and> ghostty_emojis b' n = Some (EmojiObj x)))
          \<and> (\<forall>n\<in>set EmojiName. n \<notin> set (map e_name (g_emojis g)) \<longrightarrow>
                ghostty_emojis b' n = Some (StrObj placeholder))"
    by (elim exE conjE) (intro exI conjI, assumption+)
next
  show "length EmojiName = 12" by (simp add: EmojiName_def)
  show "distinct EmojiName" by (simp add: EmojiName_def)
  show "placeholder = [CHR 0xE2, CHR 0x9D, CHR 0x93]" by (simp add: placeholder_def)
  show "StrObj placeholder \<noteq> EmojiObj x" for x by simp
qed

lemma ex_log_channel:
  "fst (log_channel gateway_ex (GhosttyBot config_set)) = Inr ch_log"
  by (simp add: log_channel_def cached_property_def ex_init log_channel_fget_def Let_def
      ex_cfg ex_get isinstance_def ex_kinds)

lemma ex_emojis:
  "g_emojis guild_ex = [emoji_commit, emoji_party]"
  "e_name emoji_commit = ''commit''" "e_name emoji_party = ''party''"
  "send_error gateway_ex = None" "c_id ch_log = 10"
  by (simp_all add: guild_ex_def emoji_commit_def emoji_party_def gateway_ex_def ch_log_def)

lemma ex_missing:
  "missing_labels labels_ex [emoji_commit, emoji_party] = [''pull_open'', ''issue_open'']"
  by (simp add: missing_labels_def labels_ex_def ex_emojis)

theorem load_emojis_cache_and_warning_witness:
  "ghostty_emojis (snd (load_emojis_for labels_ex [] gateway_ex (GhosttyBot config_set))) ''commit''
      = Some (EmojiObj emoji_commit)
   \<and> ghostty_emojis (snd (load_emojis_for labels_ex [] gateway_ex (GhosttyBot config_set))) ''pull_open''
      = Some (StrObj placeholder)
   \<and> ghostty_emojis (snd (load_emojis_for labels_ex [] gateway_ex (GhosttyBot config_set))) ''issue_open''
      = Some (StrObj placeholder)
   \<and> effects (snd (load_emojis_for labels_ex [] gateway_ex (GhosttyBot config_set)))
      = [Sent 10 ''Failed to load the following emojis: pull_open, issue_open'']"
proof -
  let ?b = "GhosttyBot config_set"
  let ?b' = "snd (load_emojis_for labels_ex [] gateway_ex ?b)"
  note T = load_emojis_cache_and_warning [where b="?b" and gw=gateway_ex and valid=labels_ex
      and b'="?b'" and ?g0.0=guild_ex and ?ch0.0=ch_log]
  have r: "fst (ghostty_guild gateway_ex ?b) = Inr guild_ex
        \<and> fst (log_channel gateway_ex ?b) = Inr ch_log \<and> send_error gateway_ex = None"
    by (simp add: ex_first_guild ex_log_channel ex_emojis)
  note R = T [THEN conjunct2, THEN conjunct2, THEN conjunct2, THEN conjunct2, THEN conjunct2,
      THEN conjunct1, rule_format, OF r]
  have h: "priv_ghostty_emojis ?b = Map.empty
        \<and> load_emojis_for labels_ex [] gateway_ex ?b = (Inr (), ?b')"
    using R by (simp add: ex_init prod_eq_iff)
  from T [THEN conjunct1, rule_format, OF h] obtain g where
    g: "fst (ghostty_guild gateway_ex ?b) = Inr g"
    and a: "\<forall>n\<in>set labels_ex. n \<in> set (map e_name (g_emojis g)) \<longrightarrow>
              (\<exists>x\<in>set (g_emojis g). e_name x = n \<and> ghostty_emojis ?b' n = Some (EmojiObj x))"
    and c: "\<forall>n\<in>set labels_ex. n \<notin> set (map e_name (g_emojis g)) \<longrightarrow>
              ghostty_emojis ?b' n = Some (StrObj placeholder)"
    and m: "missing_labels labels_ex (g_emojis g) \<noteq> [] \<longrightarrow>
              (\<exists>ch. fst (log_channel gateway_ex ?b) = Inr ch \<and>
                 effects ?b' = effects ?b @
                   [Sent (c_id ch) (''Failed to load the following emojis: ''
                      @ join '', '' (arrange [] (missing_labels labels_ex (g_emojis g))))])"
    by (elim exE conjE)
  from g have gg: "g = guild_ex" by (simp add: ex_first_guild)
  from a have "ghostty_emojis ?b' ''commit'' = Some (EmojiObj emoji_commit)"
    by (simp add: gg labels_ex_def ex_emojis)
  moreover from c have "ghostty_emojis ?b' ''pull_open'' = Some (StrObj placeholder)"
    "ghostty_emojis ?b' ''issue_open'' = Some (StrObj placeholder)"
    by (simp_all add: gg labels_ex_def ex_emojis)
  moreover from m have "effects ?b' = [Sent 10 ''Failed to load the following emojis: pull_open, issue_open'']"
    by (simp add: gg ex_missing ex_log_channel ex_init ex_emojis arrange_def)
  ultimately show ?thesis by simp
qed


theorem emoji_mapping_total_witness:
  "ghostty_emojis (snd (load_emojis [] gateway_ex (GhosttyBot config_set))) ''commit''
      = Some (EmojiObj emoji_commit)
   \<and> ghostty_emojis (snd (load_emojis [] gateway_ex (GhosttyBot config_set))) ''pull_merged''
      = Some (StrObj placeholder)
   \<and> ghostty_emojis (snd (load_emojis [] gateway_ex (GhosttyBot config_set))) ''issue_open'' \<noteq> None"
proof -
  let ?b = "GhosttyBot config_set"
  let ?b' = "snd (load_emojis [] gateway_ex ?b)"
  have "fst (load_emojis [] gateway_ex ?b) = Inr ()"
    unfolding load_emojis_def
    by (rule load_emojis_for_returns [OF ex_first_guild ex_log_channel ex_emojis(4)])
  then have h: "priv_ghostty_emojis ?b = Map.empty \<and> load_emojis [] gateway_ex ?b = (Inr (), ?b')"
    by (simp add: ex_init prod_eq_iff)
  then have h1: "load_emojis [] gateway_ex ?b = (Inr (), ?b')" by simp
  note T = emoji_mapping_total [where b="?b" and gw=gateway_ex and b'="?b'"]
  have n: "''commit'' \<in> set EmojiName" "''pull_merged'' \<in> set EmojiName"
    "''issue_open'' \<in> set EmojiName"
    by (simp_all add: EmojiName_def)
  from T [THEN conjunct1, rule_format, OF h1 n(3)]
  have t: "ghostty_emojis ?b' ''issue_open'' \<noteq> None" .
  from T [THEN conjunct2, THEN conjunct1, rule_format, OF h] obtain g where
    g: "fst (ghostty_guild gateway_ex ?b) = Inr g"
    and a: "\<forall>n\<in>set EmojiName. n \<in> set (map e_name (g_emojis g)) \<longrightarrow>
              (\<exists>x\<in>set (g_emojis g). e_name x = n \<and> ghostty_emojis ?b' n = Some (EmojiObj x))"
    and c: "\<forall>n\<in>set EmojiName. n \<notin> set (map e_name (g_emojis g)) \<longrightarrow>
              ghostty_emojis ?b' n = Some (StrObj placeholder)"
    by (elim exE conjE)
  from g have gg: "g = guild_ex" by (simp add: ex_first_guild)
  from a [rule_format, OF n(1)] have "ghostty_emojis ?b' ''commit'' = Some (EmojiObj emoji_commit)"
    by (simp add: gg ex_emojis)
  moreover from c [rule_format, OF n(2)]
  have "ghostty_emojis ?b' ''pull_merged'' = Some (StrObj placeholder)"
    by (simp add: gg ex_emojis)
  ultimately show ?thesis using t by simp
qed

end
